theory Spec2Isabelle
  imports Complex_Main
begin

section \<open>Intercept-only regression demo: metric functions and gradient descent engine\<close>

text \<open>
  A shallow embedding of the numeric core of \<^verbatim>\<open>main.js\<close>: the metric functions
  \<^verbatim>\<open>computeMSE\<close>, \<^verbatim>\<open>computeMSEDerivative\<close>, \<^verbatim>\<open>computeOptimalB\<close>, the animation
  \<^verbatim>\<open>animateGradientDescentStep\<close> and the two controllers \<^verbatim>\<open>stepGradientDescent\<close> and
  \<^verbatim>\<open>runGradientDescent\<close>.

  The first part evaluates the source's expressions in exact real arithmetic, as the
  specification's data model does (points, \<open>b\<close> and the learning rate are reals
  there); the part on binary64 evaluates the metric functions, the update of a descent
  step and the interpolation of a tick the way JavaScript does, every operation rounded
  to a double, and the statements on the metric functions and on the values of the
  ticks are made for both. Division by zero is not modelled in the first part
  (JavaScript yields \<open>NaN\<close> or an infinity, HOL yields \<open>0\<close>), so every statement about
  the metric functions carries the hypothesis that the dataset is non-empty.
\<close>

subsection \<open>Data\<close>

text \<open>A data point \<^verbatim>\<open>{ x, y }\<close> and a dataset \<^verbatim>\<open>{ points, optimalB }\<close>
  (\<^verbatim>\<open>optimalB\<close> is \<^verbatim>\<open>null\<close> until the page is initialised).\<close>

record Point =
  p_x :: real
  p_y :: real

record Dataset =
  points :: "Point list"
  optimalB :: "real option"

text \<open>An entry \<^verbatim>\<open>{ iteration, b, mse, gradient }\<close> of \<^verbatim>\<open>gdState.history\<close>, and the
  global \<^verbatim>\<open>gdState\<close> itself.\<close>

record HistoryEntry =
  h_iteration :: nat
  h_b :: real
  h_mse :: real
  h_gradient :: real

record GdState =
  currentB :: real
  history :: "HistoryEntry list"
  isRunning :: bool

text \<open>
  What the engine does to the page is kept as a log of effects, in program order:
  writing the slider (\<^verbatim>\<open>slider.value = v.toFixed(2)\<close>, logged with the number \<open>v\<close>
  before formatting), the call \<^verbatim>\<open>updateMainDisplay()\<close>, a row appended to the
  iterations table and the table being cleared.
\<close>

datatype Effect =
    SetSliderValue real
  | UpdateMainDisplay
  | AddIterationRow nat real real real
  | ClearIterationsTable

text \<open>
  The part of the page the engine reads and writes: the global \<^verbatim>\<open>mainData\<close>, the global
  \<^verbatim>\<open>gdState\<close>, the two inputs the controllers parse
  (\<^verbatim>\<open>parseFloat(learning-rate.value)\<close> and \<^verbatim>\<open>parseInt(iterations.value)\<close>, taken
  as already parsed; an input that does not parse to a number is outside the model)
  and the log of effects.
\<close>

record World =
  mainData :: Dataset
  gdState :: GdState
  learningRateInput :: real
  iterationsInput :: int
  domLog :: "Effect list"

subsection \<open>Async functions as resumptions\<close>

text \<open>
  An \<^verbatim>\<open>async\<close> function runs synchronously up to its next
  \<^verbatim>\<open>await new Promise(resolve => setTimeout(resolve, d))\<close>, where it hands control back
  to the event loop. \<open>Await d w k\<close> is that moment: the timeout \<open>d\<close> in milliseconds,
  the world \<open>w\<close> as the function leaves it, and the rest of the function \<open>k\<close>, which
  resumes in the world it finds when the timer fires (event handlers may have run in
  between). \<open>Finished w\<close> is the function returning.
\<close>

datatype Task = Finished World | Await real World "World \<Rightarrow> Task"

text \<open>\<^verbatim>\<open>await f(...); rest\<close> for an async function \<open>f\<close>.\<close>

primrec bindTask :: "Task \<Rightarrow> (World \<Rightarrow> Task) \<Rightarrow> Task" where
  "bindTask (Finished w) k = k w"
| "bindTask (Await d w c) k = Await d w (\<lambda>w'. bindTask (c w') k)"

text \<open>Running a task when nothing else touches the page while it is suspended: the
  world at its end, the worlds at its suspension points (with the timeout of each), and
  the times at which it suspends and ends when it starts at time \<open>t\<close>.\<close>

primrec runToCompletion :: "Task \<Rightarrow> World" where
  "runToCompletion (Finished w) = w"
| "runToCompletion (Await d w c) = runToCompletion (c w)"

primrec suspensions :: "Task \<Rightarrow> (real \<times> World) list" where
  "suspensions (Finished w) = []"
| "suspensions (Await d w c) = (d, w) # suspensions (c w)"



text \<open>The value of \<^verbatim>\<open>gdState.currentB\<close> at each suspension point.\<close>

definition tickValues :: "Task \<Rightarrow> real list" where
  "tickValues t = map (\<lambda>(d, w). currentB (gdState w)) (suspensions t)"

subsection \<open>Metric functions\<close>

text \<open>\<^verbatim>\<open>xs.reduce((sum, r) => sum + r, 0)\<close> is a left fold from \<open>0\<close>.\<close>

definition computeMSE :: "Dataset \<Rightarrow> real \<Rightarrow> real" where
  "computeMSE data b =
     (let residuals = map (\<lambda>point. p_y point - b) (points data);
          squaredErrors = map (\<lambda>r. r * r) residuals;
          mse = foldl (\<lambda>sum err. sum + err) 0 squaredErrors / real (length (points data))
      in mse)"

definition computeMSEDerivative :: "Dataset \<Rightarrow> real \<Rightarrow> real" where
  "computeMSEDerivative data b =
     (let residuals = map (\<lambda>point. p_y point - b) (points data);
          sumResiduals = foldl (\<lambda>sum r. sum + r) 0 residuals;
          derivative = - (2 / real (length (points data))) * sumResiduals
      in derivative)"

definition computeOptimalB :: "Dataset \<Rightarrow> real" where
  "computeOptimalB data =
     (let yValues = map (\<lambda>p. p_y p) (points data);
          mean = foldl (\<lambda>sum y. sum + y) 0 yValues / real (length yValues)
      in mean)"

subsection \<open>The animation\<close>

definition setCurrentB :: "real \<Rightarrow> World \<Rightarrow> World" where
  "setCurrentB v w = w\<lparr>gdState := (gdState w)\<lparr>currentB := v\<rparr>\<rparr>"

definition domEffect :: "Effect \<Rightarrow> World \<Rightarrow> World" where
  "domEffect e w = w\<lparr>domLog := domLog w @ [e]\<rparr>"

text \<open>
  The loop \<^verbatim>\<open>for (let i = 1; i <= steps; i++)\<close> of \<^verbatim>\<open>animateGradientDescentStep\<close>
  from the iteration \<open>i\<close> on, followed by the code after the loop. Each iteration
  writes the interpolated value to \<^verbatim>\<open>gdState.currentB\<close> and to the slider, refreshes
  the display and waits \<open>stepDuration\<close> milliseconds. After the loop the value is set
  to \<open>newB\<close> once more and \<^verbatim>\<open>if (onDone) onDone()\<close> runs.
\<close>

function animateLoop ::
  "nat \<Rightarrow> nat \<Rightarrow> real \<Rightarrow> real \<Rightarrow> real \<Rightarrow> (World \<Rightarrow> World) option \<Rightarrow> World \<Rightarrow> Task" where
  "animateLoop i steps stepDuration oldB newB onDone w =
     (if i \<le> steps then
        (let progress = real i / real steps;
             easeProgress = 1 - (1 - progress) ^ 3;
             curB = oldB + (newB - oldB) * easeProgress;
             w1 = setCurrentB curB w;
             w2 = domEffect (SetSliderValue curB) w1;
             w3 = domEffect UpdateMainDisplay w2
         in Await stepDuration w3
              (\<lambda>w'. animateLoop (i + 1) steps stepDuration oldB newB onDone w'))
      else
        (let w1 = setCurrentB newB w;
             w2 = domEffect (SetSliderValue newB) w1;
             w3 = domEffect UpdateMainDisplay w2
         in (case onDone of None \<Rightarrow> Finished w3 | Some f \<Rightarrow> Finished (f w3))))"
  by pat_completeness auto
termination
  by (relation "measure (\<lambda>(i, steps, _). Suc steps - i)") auto

definition animateGradientDescentStep ::
  "real \<Rightarrow> real \<Rightarrow> (World \<Rightarrow> World) option \<Rightarrow> World \<Rightarrow> Task" where
  "animateGradientDescentStep oldB newB onDone w =
     (let duration = 400;
          steps = 20;
          stepDuration = duration / real steps
      in animateLoop 1 steps stepDuration oldB newB onDone w)"

subsection \<open>Step Once and Run\<close>

definition pushHistory :: "HistoryEntry \<Rightarrow> World \<Rightarrow> World" where
  "pushHistory e w = w\<lparr>gdState := (gdState w)\<lparr>history := history (gdState w) @ [e]\<rparr>\<rparr>"

definition addIterationRow :: "nat \<Rightarrow> real \<Rightarrow> real \<Rightarrow> real \<Rightarrow> World \<Rightarrow> World" where
  "addIterationRow iteration b mse gradient w =
     domEffect (AddIterationRow iteration b mse gradient) w"

definition clearIterationsTable :: "World \<Rightarrow> World" where
  "clearIterationsTable w = domEffect ClearIterationsTable w"

definition stepGradientDescent :: "World \<Rightarrow> Task" where
  "stepGradientDescent w =
     (let learningRate = learningRateInput w;
          curB = currentB (gdState w);
          gradient = computeMSEDerivative (mainData w) curB;
          newB = curB - learningRate * gradient;
          mse = computeMSE (mainData w) curB;
          iteration = length (history (gdState w));
          w1 = pushHistory
                 \<lparr>h_iteration = iteration, h_b = curB, h_mse = mse, h_gradient = gradient\<rparr> w;
          w2 = addIterationRow iteration curB mse gradient w1
      in bindTask (animateGradientDescentStep curB newB (Some (\<lambda>v. v)) w2) Finished)"

text \<open>The loop \<^verbatim>\<open>for (let i = 0; i < iterations; i++)\<close> of \<^verbatim>\<open>runGradientDescent\<close>
  from the iteration \<open>i\<close> on, followed by \<^verbatim>\<open>gdState.isRunning = false\<close>. The learning
  rate and the iteration count were read once, before the loop.\<close>

function runLoop :: "nat \<Rightarrow> int \<Rightarrow> real \<Rightarrow> World \<Rightarrow> Task" where
  "runLoop i iterations learningRate w =
     (if int i < iterations then
        (let curB = currentB (gdState w);
             gradient = computeMSEDerivative (mainData w) curB;
             newB = curB - learningRate * gradient;
             mse = computeMSE (mainData w) curB;
             w1 = pushHistory
                    \<lparr>h_iteration = i, h_b = curB, h_mse = mse, h_gradient = gradient\<rparr> w;
             w2 = addIterationRow i curB mse gradient w1
         in bindTask (animateGradientDescentStep curB newB (Some (\<lambda>v. v)) w2)
              (\<lambda>w'. runLoop (i + 1) iterations learningRate w'))
      else Finished (w\<lparr>gdState := (gdState w)\<lparr>isRunning := False\<rparr>\<rparr>))"
  by pat_completeness auto
termination
  by (relation "measure (\<lambda>(i, iterations, _). nat (iterations - int i))") auto

definition runGradientDescent :: "World \<Rightarrow> Task" where
  "runGradientDescent w =
     (if isRunning (gdState w) then Finished w
      else
        (let w1 = w\<lparr>gdState := (gdState w)\<lparr>isRunning := True\<rparr>\<rparr>;
             learningRate = learningRateInput w1;
             iterations = iterationsInput w1;
             w2 = w1\<lparr>gdState := (gdState w1)\<lparr>history := []\<rparr>\<rparr>;
             w3 = clearIterationsTable w2
         in runLoop 0 iterations learningRate w3))"

subsection \<open>An event handler running while a task is suspended\<close>

text \<open>The click handler of the Randomize button; \<open>rnd\<close> is the value
  \<^verbatim>\<open>Math.random()\<close> returns.\<close>

definition randomizeClick :: "real \<Rightarrow> World \<Rightarrow> World" where
  "randomizeClick rnd w =
     (let randomB = rnd * 20 - 10;
          w1 = domEffect (SetSliderValue randomB) w;
          w2 = setCurrentB randomB w1;
          w3 = w2\<lparr>gdState := (gdState w2)\<lparr>history := []\<rparr>\<rparr>;
          w4 = domEffect UpdateMainDisplay w3;
          w5 = clearIterationsTable w4
      in w5)"

text \<open>A task run to its end when the synchronous handler \<open>h\<close> runs at its first
  suspension point and nothing else touches the page afterwards.\<close>

definition resumeAfter :: "(World \<Rightarrow> World) \<Rightarrow> Task \<Rightarrow> World" where
  "resumeAfter h t =
     (case t of Finished w \<Rightarrow> w | Await d w c \<Rightarrow> runToCompletion (c (h w)))"

subsection \<open>The page's initial data\<close>

text \<open>The literals \<^verbatim>\<open>mainData\<close> and \<^verbatim>\<open>gdState\<close> of the source, and the world after
  \<^verbatim>\<open>initializeApp\<close> has stored \<^verbatim>\<open>mainData.optimalB = computeOptimalB(mainData)\<close>, for
  given contents of the learning-rate and iterations inputs.\<close>

definition mainData_literal :: Dataset where
  "mainData_literal =
     \<lparr>points = [\<lparr>p_x = 2, p_y = 5 / 2\<rparr>, \<lparr>p_x = 7, p_y = 13 / 2\<rparr>], optimalB = None\<rparr>"

definition gdState_literal :: GdState where
  "gdState_literal = \<lparr>currentB = 3, history = [], isRunning = False\<rparr>"

definition pageWorld :: "real \<Rightarrow> int \<Rightarrow> World" where
  "pageWorld lr its =
     \<lparr>mainData = mainData_literal\<lparr>optimalB := Some (computeOptimalB mainData_literal)\<rparr>,
      gdState = gdState_literal,
      learningRateInput = lr,
      iterationsInput = its,
      domLog = []\<rparr>"

text \<open>The world a second click finds while a run is in progress: the page at the first
  suspension point of \<^verbatim>\<open>runGradientDescent\<close>.\<close>

definition midRunWorld :: "real \<Rightarrow> int \<Rightarrow> World" where
  "midRunWorld lr its = snd (hd (suspensions (runGradientDescent (pageWorld lr its))))"

subsection \<open>Handlers at every suspension point of a task\<close>

text \<open>The input handler of the main slider (\<^verbatim>\<open>main.js\<close> 603-606); \<open>v\<close> is the value
  \<^verbatim>\<open>parseFloat(e.target.value)\<close>.\<close>

definition sliderInput :: "real \<Rightarrow> World \<Rightarrow> World" where
  "sliderInput v w =
     (let w1 = setCurrentB v w;
          w2 = domEffect UpdateMainDisplay w1
      in w2)"

text \<open>
  A task run to its end while event handlers run at its suspension points: the first
  element of \<open>hs\<close> is what the handlers do to the page while the task is suspended for
  the first time, the second while it is suspended for the second time, and so on;
  past the end of \<open>hs\<close> nothing interferes. \<open>handlersLeft\<close> is the part of \<open>hs\<close> that
  the task has not reached when it ends.
\<close>

primrec runInterleaved :: "Task \<Rightarrow> (World \<Rightarrow> World) list \<Rightarrow> World" where
  "runInterleaved (Finished w) hs = w"
| "runInterleaved (Await d w c) hs =
     (case hs of [] \<Rightarrow> runInterleaved (c w) [] | h # hs' \<Rightarrow> runInterleaved (c (h w)) hs')"

primrec handlersLeft :: "Task \<Rightarrow> (World \<Rightarrow> World) list \<Rightarrow> (World \<Rightarrow> World) list" where
  "handlersLeft (Finished w) hs = hs"
| "handlersLeft (Await d w c) hs =
     (case hs of [] \<Rightarrow> [] | h # hs' \<Rightarrow> handlersLeft (c (h w)) hs')"

text \<open>The world Run is called in when the user has clicked Step Once on the initial
  page and let it finish: the history holds one entry.\<close>

definition steppedWorld :: "real \<Rightarrow> int \<Rightarrow> World" where
  "steppedWorld lr its = runToCompletion (stepGradientDescent (pageWorld lr its))"

subsection \<open>Reference notions the statements compare the code with\<close>

text \<open>The interpolation formula of the specification's section 4.3: the value at tick
  \<open>i\<close> of an animation with \<open>stepCount\<close> ticks.\<close>

definition spec_interpolatedB :: "nat \<Rightarrow> real \<Rightarrow> real \<Rightarrow> nat \<Rightarrow> real" where
  "spec_interpolatedB stepCount fromB toB i =
     fromB + (toB - fromB) * (1 - (1 - real i / real stepCount) ^ 3)"

text \<open>The effects of the ticks \<open>i, \<dots>, k\<close> of an animation: each writes the slider and
  refreshes the display.\<close>

definition tickEffects :: "nat \<Rightarrow> real \<Rightarrow> real \<Rightarrow> nat \<Rightarrow> nat \<Rightarrow> Effect list" where
  "tickEffects steps oldB newB i k =
     concat (map (\<lambda>j. [SetSliderValue (spec_interpolatedB steps oldB newB j), UpdateMainDisplay])
       [i..<Suc k])"

text \<open>The sequence \<open>b\<^sub>0, b\<^sub>1, \<dots>\<close> of the specification's section 4.2:
  \<open>b\<^sub>0 = b\<close> and \<open>b\<^sub>n\<^sub>+\<^sub>1 = b\<^sub>n - lr * mseDerivative(D, b\<^sub>n)\<close>; \<open>spec_descentB D lr n b\<close> is
  \<open>b\<^sub>n\<close>.\<close>

primrec spec_descentB :: "Dataset \<Rightarrow> real \<Rightarrow> nat \<Rightarrow> real \<Rightarrow> real" where
  "spec_descentB D lr 0 b = b"
| "spec_descentB D lr (Suc n) b = spec_descentB D lr n (b - lr * computeMSEDerivative D b)"

text \<open>The history entry numbered \<open>i + k\<close> that records \<open>b\<^sub>k\<close> with its error and
  gradient.\<close>

definition spec_descentEntry :: "Dataset \<Rightarrow> real \<Rightarrow> real \<Rightarrow> nat \<Rightarrow> nat \<Rightarrow> HistoryEntry" where
  "spec_descentEntry D lr b0 i k =
     \<lparr>h_iteration = i + k,
      h_b = spec_descentB D lr k b0,
      h_mse = computeMSE D (spec_descentB D lr k b0),
      h_gradient = computeMSEDerivative D (spec_descentB D lr k b0)\<rparr>"

subsection \<open>The arithmetic in IEEE 754 binary64\<close>

text \<open>
  The definitions above evaluate the source's expressions in exact real arithmetic. A
  JavaScript number is a binary64 double, and every \<^verbatim>\<open>+\<close>, \<^verbatim>\<open>-\<close>, \<^verbatim>\<open>*\<close> and \<^verbatim>\<open>/\<close>
  rounds its exact result to the nearest double, ties to the even mantissa. The rest
  of this section models that: a double is a finite real, an infinity or \<open>NaN\<close>; the
  two zeros are identified (the code divides by a length only and compares with
  \<^verbatim>\<open>==\<close>, neither of which tells them apart).
\<close>

datatype f64 = Fin real | PInf | NInf | NaN

text \<open>The nearest integer, ties to even.\<close>

definition roundEven :: "real \<Rightarrow> int" where
  "roundEven r =
     (let f = \<lfloor>r\<rfloor>
      in if r - of_int f < 1 / 2 then f
         else if 1 / 2 < r - of_int f then f + 1
         else if even f then f else f + 1)"

text \<open>
  The exponent \<open>e\<close> of the binade \<open>[2^e, 2^(e+1))\<close> that holds \<open>\<bar>x\<bar>\<close>, found by
  halving or doubling and kept within the exponents of normal doubles, \<open>-1022\<close> to
  \<open>1023\<close>: below \<open>2^-1022\<close> a double is subnormal and keeps the exponent \<open>-1022\<close>.
\<close>

fun halvings :: "nat \<Rightarrow> real \<Rightarrow> nat" where
  "halvings 0 a = 0"
| "halvings (Suc n) a = (if 2 \<le> a then Suc (halvings n (a / 2)) else 0)"

fun doublings :: "nat \<Rightarrow> real \<Rightarrow> nat" where
  "doublings 0 a = 0"
| "doublings (Suc n) a = (if a < 1 then Suc (doublings n (a * 2)) else 0)"

definition binade :: "real \<Rightarrow> int" where
  "binade x = (if 1 \<le> \<bar>x\<bar> then int (halvings 1023 \<bar>x\<bar>) else - int (doublings 1022 \<bar>x\<bar>))"

text \<open>
  Rounding a real to a double: to the nearest multiple of the unit in the last place
  of its binade (53 significant bits), and to an infinity when the rounded value
  reaches \<open>2^1024\<close>.
\<close>

definition roundDouble :: "real \<Rightarrow> f64" where
  "roundDouble x =
     (let ulp = 2 powi (binade x - 52);
          y = of_int (roundEven (x / ulp)) * ulp
      in if 2 ^ 1024 \<le> y then PInf else if y \<le> - (2 ^ 1024) then NInf else Fin y)"

text \<open>The operators of JavaScript on doubles. A zero divisor is taken as \<open>+0\<close>.\<close>

fun fneg :: "f64 \<Rightarrow> f64" where
  "fneg (Fin a) = Fin (- a)"
| "fneg PInf = NInf"
| "fneg NInf = PInf"
| "fneg NaN = NaN"

fun fadd :: "f64 \<Rightarrow> f64 \<Rightarrow> f64" where
  "fadd (Fin a) (Fin b) = roundDouble (a + b)"
| "fadd NaN _ = NaN"
| "fadd _ NaN = NaN"
| "fadd PInf NInf = NaN"
| "fadd NInf PInf = NaN"
| "fadd PInf _ = PInf"
| "fadd _ PInf = PInf"
| "fadd NInf _ = NInf"
| "fadd _ NInf = NInf"

definition fsub :: "f64 \<Rightarrow> f64 \<Rightarrow> f64" where
  "fsub a b = fadd a (fneg b)"

fun fmul :: "f64 \<Rightarrow> f64 \<Rightarrow> f64" where
  "fmul (Fin a) (Fin b) = roundDouble (a * b)"
| "fmul NaN _ = NaN"
| "fmul _ NaN = NaN"
| "fmul (Fin a) PInf = (if a = 0 then NaN else if 0 < a then PInf else NInf)"
| "fmul (Fin a) NInf = (if a = 0 then NaN else if 0 < a then NInf else PInf)"
| "fmul PInf (Fin b) = (if b = 0 then NaN else if 0 < b then PInf else NInf)"
| "fmul NInf (Fin b) = (if b = 0 then NaN else if 0 < b then NInf else PInf)"
| "fmul PInf PInf = PInf"
| "fmul NInf NInf = PInf"
| "fmul PInf NInf = NInf"
| "fmul NInf PInf = NInf"

fun fdiv :: "f64 \<Rightarrow> f64 \<Rightarrow> f64" where
  "fdiv (Fin a) (Fin b) =
     (if b = 0 then (if a = 0 then NaN else if 0 < a then PInf else NInf) else roundDouble (a / b))"
| "fdiv NaN _ = NaN"
| "fdiv _ NaN = NaN"
| "fdiv (Fin a) _ = Fin 0"
| "fdiv PInf (Fin b) = (if 0 \<le> b then PInf else NInf)"
| "fdiv NInf (Fin b) = (if 0 \<le> b then NInf else PInf)"
| "fdiv _ _ = NaN"

text \<open>
  \<^verbatim>\<open>Math.pow(x, 3)\<close>. ECMAScript fixes \<^verbatim>\<open>Math.pow\<close> at special arguments
  (\<^verbatim>\<open>Math.pow(0, 3)\<close> is \<open>0\<close>) and leaves it implementation-approximated elsewhere;
  it is taken here as the correctly rounded cube.
\<close>

fun mathPow3 :: "f64 \<Rightarrow> f64" where
  "mathPow3 (Fin a) = roundDouble (a ^ 3)"
| "mathPow3 PInf = PInf"
| "mathPow3 NInf = NInf"
| "mathPow3 NaN = NaN"



definition computeMSEDerivative_f64 :: "Dataset \<Rightarrow> f64 \<Rightarrow> f64" where
  "computeMSEDerivative_f64 data b =
     (let residuals = map (\<lambda>point. fsub (Fin (p_y point)) b) (points data);
          sumResiduals = foldl (\<lambda>sum r. fadd sum r) (Fin 0) residuals;
          derivative = fmul (fneg (fdiv (Fin 2) (Fin (real (length (points data)))))) sumResiduals
      in derivative)"

definition computeOptimalB_f64 :: "Dataset \<Rightarrow> f64" where
  "computeOptimalB_f64 data =
     (let yValues = map (\<lambda>p. Fin (p_y p)) (points data);
          mean = fdiv (foldl (\<lambda>sum y. fadd sum y) (Fin 0) yValues) (Fin (real (length yValues)))
      in mean)"



text \<open>Datasets for the statements about doubles: three points with \<open>y = 1, 1, 2\<close>;
  three points with \<open>y = 0.5, 0.1, 2\<close> (\<open>0.1\<close> as the double it parses to); one point
  with \<open>y = 2^-540\<close>. The learning rate \<open>0.45\<close> as the double it parses to.\<close>

definition thirdsData :: Dataset where
  "thirdsData =
     \<lparr>points = [\<lparr>p_x = 1, p_y = 1\<rparr>, \<lparr>p_x = 2, p_y = 1\<rparr>, \<lparr>p_x = 3, p_y = 2\<rparr>],
      optimalB = None\<rparr>"

definition tenthData :: Dataset where
  "tenthData =
     \<lparr>points = [\<lparr>p_x = 1, p_y = 1 / 2\<rparr>,
                \<lparr>p_x = 2, p_y = 3602879701896397 / 36028797018963968\<rparr>,
                \<lparr>p_x = 3, p_y = 2\<rparr>],
      optimalB = None\<rparr>"




section \<open>Auxiliary facts\<close>

declare animateLoop.simps [simp del]
declare runLoop.simps [simp del]

subsection \<open>Tasks\<close>

lemma runToCompletion_bindTask:
  "runToCompletion (bindTask t k) = runToCompletion (k (runToCompletion t))"
  by (induction t) simp_all

lemma suspensions_bindTask:
  "suspensions (bindTask t k) = suspensions t @ suspensions (k (runToCompletion t))"
  by (induction t) simp_all

lemma bindTask_Finished: "bindTask t Finished = t"
  by (induction t) simp_all

subsection \<open>The metric functions as sums\<close>

lemma foldl_add: "foldl (\<lambda>s r. s + r) a xs = a + sum_list xs" for a :: real
  by (induction xs arbitrary: a) simp_all

lemma sum_list_residuals:
  "(\<Sum>p\<leftarrow>ps. p_y p - b) = (\<Sum>p\<leftarrow>ps. p_y p) - real (length ps) * b"
  by (induction ps) (simp_all add: algebra_simps)


lemma computeMSEDerivative_sum:
  "computeMSEDerivative D b =
     - (2 / real (length (points D))) * ((\<Sum>p\<leftarrow>points D. p_y p) - real (length (points D)) * b)"
  by (simp add: computeMSEDerivative_def foldl_add Let_def comp_def sum_list_residuals)

lemma computeOptimalB_sum:
  "computeOptimalB D = (\<Sum>p\<leftarrow>points D. p_y p) / real (length (points D))"
  by (simp add: computeOptimalB_def foldl_add Let_def)

lemma computeMSEDerivative_linear:
  "points D \<noteq> [] \<Longrightarrow> computeMSEDerivative D b = 2 * (b - computeOptimalB D)"
  by (simp add: computeMSEDerivative_sum computeOptimalB_sum field_simps)



lemma spec_descentB_closed:
  assumes "points D \<noteq> []"
  shows "spec_descentB D lr n b = computeOptimalB D + (1 - 2 * lr) ^ n * (b - computeOptimalB D)"
proof (induction n arbitrary: b)
  case 0
  show ?case by simp
next
  case (Suc n)
  show ?case
    by (simp add: Suc.IH computeMSEDerivative_linear [OF assms] algebra_simps)
qed

lemma mainData_literal_metrics:
  "points mainData_literal \<noteq> []"
  "computeOptimalB mainData_literal = 9 / 2"
  "computeMSEDerivative mainData_literal b = 2 * b - 9"
  by (simp_all add: mainData_literal_def computeOptimalB_def computeMSEDerivative_def)

subsection \<open>The easing curve\<close>





subsection \<open>The animation loop\<close>

lemma tickEffects_Cons:
  "i \<le> k \<Longrightarrow> tickEffects steps oldB newB i k =
     [SetSliderValue (spec_interpolatedB steps oldB newB i), UpdateMainDisplay]
       @ tickEffects steps oldB newB (Suc i) k"
  unfolding tickEffects_def by (subst upt_conv_Cons) simp_all

lemma tickEffects_Nil: "k < i \<Longrightarrow> tickEffects steps oldB newB i k = []"
  by (simp add: tickEffects_def)

lemma tickEffects_snoc:
  "i \<le> Suc k \<Longrightarrow> tickEffects steps oldB newB i (Suc k) =
     tickEffects steps oldB newB i k
       @ [SetSliderValue (spec_interpolatedB steps oldB newB (Suc k)), UpdateMainDisplay]"
  by (simp add: tickEffects_def)

lemma runToCompletion_animateLoop:
  "runToCompletion (animateLoop i steps d oldB newB onDone w) =
     (case onDone of None \<Rightarrow> (\<lambda>v. v) | Some f \<Rightarrow> f)
       (w\<lparr>gdState := (gdState w)\<lparr>currentB := newB\<rparr>,
          domLog := domLog w @ tickEffects steps oldB newB i steps
                   @ [SetSliderValue newB, UpdateMainDisplay]\<rparr>)"
proof (induction i steps d oldB newB onDone w rule: animateLoop.induct)
  case (1 i steps d oldB newB onDone w)
  show ?case
  proof (cases "i \<le> steps")
    case True
    note IH = "1.IH" [OF True refl refl refl refl refl refl, unfolded Suc_eq_plus1 [symmetric]]
    show ?thesis
      by (subst animateLoop.simps)
         (simp add: True IH tickEffects_Cons
            setCurrentB_def domEffect_def spec_interpolatedB_def Let_def)
  next
    case False
    then show ?thesis
      by (subst animateLoop.simps)
         (simp add: tickEffects_Nil setCurrentB_def domEffect_def split: option.split)
  qed
qed

lemma suspensions_animateLoop:
  "suspensions (animateLoop i steps d oldB newB onDone w) =
     map (\<lambda>k. (d, w\<lparr>gdState := (gdState w)\<lparr>currentB := spec_interpolatedB steps oldB newB k\<rparr>,
                    domLog := domLog w @ tickEffects steps oldB newB i k\<rparr>))
       [i..<Suc steps]"
proof (induction i steps d oldB newB onDone w rule: animateLoop.induct)
  case (1 i steps d oldB newB onDone w)
  show ?case
  proof (cases "i \<le> steps")
    case True
    note IH = "1.IH" [OF True refl refl refl refl refl refl, unfolded Suc_eq_plus1 [symmetric]]
    have tail: "tickEffects steps oldB newB i k =
          [SetSliderValue (spec_interpolatedB steps oldB newB i), UpdateMainDisplay]
            @ tickEffects steps oldB newB (Suc i) k" if "k \<in> set [Suc i..<Suc steps]" for k
      using that by (intro tickEffects_Cons) auto
    have split: "[i..<Suc steps] = i # [Suc i..<Suc steps]"
      using True by (subst upt_conv_Cons) simp_all
    have head: "tickEffects steps oldB newB i i =
        [SetSliderValue (spec_interpolatedB steps oldB newB i), UpdateMainDisplay]"
      by (simp add: tickEffects_Cons tickEffects_Nil)
    have "suspensions (animateLoop i steps d oldB newB onDone w) =
        (d, w\<lparr>gdState := (gdState w)\<lparr>currentB := spec_interpolatedB steps oldB newB i\<rparr>,
               domLog := domLog w @ tickEffects steps oldB newB i i\<rparr>)
        # map (\<lambda>k. (d, w\<lparr>gdState := (gdState w)\<lparr>currentB := spec_interpolatedB steps oldB newB k\<rparr>,
                    domLog := domLog w @ tickEffects steps oldB newB i k\<rparr>)) [Suc i..<Suc steps]"
      by (subst animateLoop.simps)
         (simp add: True IH Let_def setCurrentB_def domEffect_def head tail
            spec_interpolatedB_def [symmetric] del: upt_Suc cong: map_cong)
    then show ?thesis
      by (simp only: split list.map)
  next
    case False
    then show ?thesis
      by (subst animateLoop.simps) (simp add: Let_def split: option.split)
  qed
qed



lemma tickValues_animateLoop:
  "tickValues (animateLoop i steps d oldB newB onDone w) =
     map (spec_interpolatedB steps oldB newB) [i..<Suc steps]"
  by (simp add: tickValues_def suspensions_animateLoop comp_def del: upt_Suc)


subsection \<open>The animation, Step Once and Run\<close>

lemma runToCompletion_animate:
  "runToCompletion (animateGradientDescentStep oldB newB onDone w) =
     (case onDone of None \<Rightarrow> (\<lambda>v. v) | Some f \<Rightarrow> f)
       (w\<lparr>gdState := (gdState w)\<lparr>currentB := newB\<rparr>,
          domLog := domLog w @ tickEffects 20 oldB newB 1 20
                   @ [SetSliderValue newB, UpdateMainDisplay]\<rparr>)"
  by (simp add: animateGradientDescentStep_def runToCompletion_animateLoop Let_def)

lemma suspensions_animate:
  "suspensions (animateGradientDescentStep oldB newB onDone w) =
     map (\<lambda>k. (20, w\<lparr>gdState := (gdState w)\<lparr>currentB := spec_interpolatedB 20 oldB newB k\<rparr>,
                    domLog := domLog w @ tickEffects 20 oldB newB 1 k\<rparr>))
       [1..<21]"
  by (simp add: animateGradientDescentStep_def suspensions_animateLoop Let_def del: upt_Suc)

lemma tickValues_animate:
  "tickValues (animateGradientDescentStep oldB newB onDone w) =
     map (spec_interpolatedB 20 oldB newB) [1..<21]"
  by (simp add: animateGradientDescentStep_def tickValues_animateLoop Let_def del: upt_Suc)

lemma nth_ticks: "k < 20 \<Longrightarrow> map f [1..<21] ! k = f (Suc k)"
  by (subst nth_map) simp_all

lemma runToCompletion_step:
  "runToCompletion (stepGradientDescent w) =
     w\<lparr>gdState := (gdState w)
          \<lparr>currentB := currentB (gdState w)
              - learningRateInput w * computeMSEDerivative (mainData w) (currentB (gdState w)),
           history := history (gdState w)
              @ [spec_descentEntry (mainData w) (learningRateInput w) (currentB (gdState w))
                   (length (history (gdState w))) 0]\<rparr>,
       domLog := domLog w
         @ [AddIterationRow (length (history (gdState w))) (currentB (gdState w))
              (computeMSE (mainData w) (currentB (gdState w)))
              (computeMSEDerivative (mainData w) (currentB (gdState w)))]
         @ tickEffects 20 (currentB (gdState w))
             (currentB (gdState w)
                - learningRateInput w * computeMSEDerivative (mainData w) (currentB (gdState w)))
             1 20
         @ [SetSliderValue (currentB (gdState w)
                - learningRateInput w * computeMSEDerivative (mainData w) (currentB (gdState w))),
            UpdateMainDisplay]\<rparr>"
  by (simp add: stepGradientDescent_def bindTask_Finished runToCompletion_animate Let_def
        pushHistory_def addIterationRow_def domEffect_def spec_descentEntry_def)

lemma suspensions_step:
  "suspensions (stepGradientDescent w) =
     map (\<lambda>k. (20,
        w\<lparr>gdState := (gdState w)
             \<lparr>currentB := spec_interpolatedB 20 (currentB (gdState w))
                 (currentB (gdState w)
                    - learningRateInput w * computeMSEDerivative (mainData w) (currentB (gdState w)))
                 k,
              history := history (gdState w)
                 @ [spec_descentEntry (mainData w) (learningRateInput w) (currentB (gdState w))
                      (length (history (gdState w))) 0]\<rparr>,
          domLog := domLog w
            @ [AddIterationRow (length (history (gdState w))) (currentB (gdState w))
                 (computeMSE (mainData w) (currentB (gdState w)))
                 (computeMSEDerivative (mainData w) (currentB (gdState w)))]
            @ tickEffects 20 (currentB (gdState w))
                (currentB (gdState w)
                   - learningRateInput w * computeMSEDerivative (mainData w) (currentB (gdState w)))
                1 k\<rparr>))
       [1..<21]"
  by (simp add: stepGradientDescent_def bindTask_Finished suspensions_animate Let_def
        pushHistory_def addIterationRow_def domEffect_def spec_descentEntry_def del: upt_Suc)

lemma tickValues_step:
  "tickValues (stepGradientDescent w) =
     map (spec_interpolatedB 20 (currentB (gdState w))
            (currentB (gdState w)
               - learningRateInput w * computeMSEDerivative (mainData w) (currentB (gdState w))))
       [1..<21]"
  by (simp add: tickValues_def suspensions_step comp_def del: upt_Suc)

lemma spec_descentEntry_upt:
  "map (spec_descentEntry D lr b i) [0..<Suc m] =
     spec_descentEntry D lr b i 0
       # map (spec_descentEntry D lr (b - lr * computeMSEDerivative D b) (i + 1)) [0..<m]"
  by (subst map_upt_Suc) (simp add: spec_descentEntry_def)

lemma mainData_runLoop:
  "mainData (runToCompletion (runLoop i N lr w)) = mainData w"
proof (induction i N lr w rule: runLoop.induct)
  case (1 i N lr w)
  show ?case
  proof (cases "int i < N")
    case True
    note IH = "1.IH" [OF True refl refl refl refl refl refl]
    show ?thesis
      by (subst runLoop.simps)
         (simp only: True if_True Let_def runToCompletion_bindTask IH,
          simp add: runToCompletion_animate pushHistory_def addIterationRow_def domEffect_def)
  next
    case False
    then show ?thesis
      by (subst runLoop.simps) simp
  qed
qed

lemma gdState_runLoop:
  "gdState (runToCompletion (runLoop i N lr w)) =
     (gdState w)\<lparr>currentB := spec_descentB (mainData w) lr (nat (N - int i)) (currentB (gdState w)),
                 history := history (gdState w)
                   @ map (spec_descentEntry (mainData w) lr (currentB (gdState w)) i)
                       [0..<nat (N - int i)],
                 isRunning := False\<rparr>"
proof (induction i N lr w rule: runLoop.induct)
  case (1 i N lr w)
  show ?case
  proof (cases "int i < N")
    case True
    note IH = "1.IH" [OF True refl refl refl refl refl refl]
    from True have n: "nat (N - int i) = Suc (nat (N - int (i + 1)))"
      by simp
    show ?thesis
      apply (subst runLoop.simps)
      apply (simp only: True if_True Let_def runToCompletion_bindTask IH n spec_descentEntry_upt
          spec_descentB.simps)
      apply (simp add: runToCompletion_animate pushHistory_def addIterationRow_def domEffect_def
          spec_descentEntry_def)
      done
  next
    case False
    then show ?thesis
      by (subst runLoop.simps) simp
  qed
qed

lemma hd_suspensions_runLoop:
  assumes "int i < N"
  shows "hd (suspensions (runLoop i N lr w)) =
     (20, w\<lparr>gdState := (gdState w)
               \<lparr>currentB := spec_interpolatedB 20 (currentB (gdState w))
                  (currentB (gdState w) - lr * computeMSEDerivative (mainData w) (currentB (gdState w))) 1,
                history := history (gdState w)
                  @ [spec_descentEntry (mainData w) lr (currentB (gdState w)) i 0]\<rparr>,
             domLog := domLog w
               @ [AddIterationRow i (currentB (gdState w))
                    (computeMSE (mainData w) (currentB (gdState w)))
                    (computeMSEDerivative (mainData w) (currentB (gdState w)))]
               @ tickEffects 20 (currentB (gdState w))
                   (currentB (gdState w) - lr * computeMSEDerivative (mainData w) (currentB (gdState w)))
                   1 1\<rparr>)"
proof -
  have ticks: "hd (map f [1..<21] @ ys) = f 1" for f :: "nat \<Rightarrow> real \<times> World" and ys
    by (subst upt_rec) simp
  show ?thesis
    by (subst runLoop.simps)
       (simp only: assms if_True Let_def suspensions_bindTask suspensions_animate ticks,
        simp add: pushHistory_def addIterationRow_def domEffect_def spec_descentEntry_def)
qed

lemma gdState_run:
  "\<not> isRunning (gdState w) \<Longrightarrow>
   gdState (runToCompletion (runGradientDescent w)) =
     \<lparr>currentB = spec_descentB (mainData w) (learningRateInput w) (nat (iterationsInput w))
                   (currentB (gdState w)),
      history = map (spec_descentEntry (mainData w) (learningRateInput w) (currentB (gdState w)) 0)
                   [0..<nat (iterationsInput w)],
      isRunning = False\<rparr>"
  by (simp add: runGradientDescent_def Let_def gdState_runLoop clearIterationsTable_def
        domEffect_def)

lemma mainData_run:
  "mainData (runToCompletion (runGradientDescent w)) = mainData w"
  by (simp add: runGradientDescent_def Let_def mainData_runLoop clearIterationsTable_def
        domEffect_def)

lemma run_busy: "isRunning (gdState w) \<Longrightarrow> runGradientDescent w = Finished w"
  by (simp add: runGradientDescent_def)

lemma funpow_step:
  "gdState (((\<lambda>v. runToCompletion (stepGradientDescent v)) ^^ n) w) =
     (gdState w)\<lparr>currentB := spec_descentB (mainData w) (learningRateInput w) n (currentB (gdState w)),
                 history := history (gdState w)
                   @ map (spec_descentEntry (mainData w) (learningRateInput w) (currentB (gdState w))
                            (length (history (gdState w)))) [0..<n]\<rparr>"
proof (induction n arbitrary: w)
  case 0
  show ?case by simp
next
  case (Suc n)
  show ?case
    apply (simp only: funpow_Suc_right o_apply Suc.IH spec_descentEntry_upt spec_descentB.simps)
    apply (simp add: runToCompletion_step spec_descentEntry_def)
    done
qed

lemma hd_suspensions_run_world:
  assumes "\<not> isRunning (gdState w)" "0 < iterationsInput w"
  shows "snd (hd (suspensions (runGradientDescent w))) =
     w\<lparr>gdState :=
          \<lparr>currentB = spec_interpolatedB 20 (currentB (gdState w))
             (currentB (gdState w)
                - learningRateInput w * computeMSEDerivative (mainData w) (currentB (gdState w))) 1,
           history = [spec_descentEntry (mainData w) (learningRateInput w) (currentB (gdState w)) 0 0],
           isRunning = True\<rparr>,
        domLog := domLog w
          @ [ClearIterationsTable,
             AddIterationRow 0 (currentB (gdState w))
               (computeMSE (mainData w) (currentB (gdState w)))
               (computeMSEDerivative (mainData w) (currentB (gdState w)))]
          @ tickEffects 20 (currentB (gdState w))
              (currentB (gdState w)
                 - learningRateInput w * computeMSEDerivative (mainData w) (currentB (gdState w)))
              1 1\<rparr>"
  using assms
  by (simp add: runGradientDescent_def Let_def hd_suspensions_runLoop clearIterationsTable_def
        domEffect_def)

lemma pageWorld_simps:
  "mainData (pageWorld lr its) = mainData_literal\<lparr>optimalB := Some (9 / 2)\<rparr>"
  "gdState (pageWorld lr its) = \<lparr>currentB = 3, history = [], isRunning = False\<rparr>"
  "learningRateInput (pageWorld lr its) = lr"
  "iterationsInput (pageWorld lr its) = its"
  "domLog (pageWorld lr its) = []"
  by (simp_all add: pageWorld_def gdState_literal_def mainData_literal_metrics)

lemma pageData_metrics:
  "points (mainData_literal\<lparr>optimalB := v\<rparr>) \<noteq> []"
  "computeOptimalB (mainData_literal\<lparr>optimalB := v\<rparr>) = 9 / 2"
  "computeMSEDerivative (mainData_literal\<lparr>optimalB := v\<rparr>) b = 2 * b - 9"
  "computeMSE (mainData_literal\<lparr>optimalB := v\<rparr>) b = ((5 / 2 - b)\<^sup>2 + (13 / 2 - b)\<^sup>2) / 2"
  by (simp_all add: mainData_literal_def computeOptimalB_def computeMSEDerivative_def
        computeMSE_def power2_eq_square)

lemma midRunWorld_simps:
  assumes "0 < its"
  shows "gdState (midRunWorld lr its) =
      \<lparr>currentB = spec_interpolatedB 20 3 (3 + lr * 3) 1,
       history = [\<lparr>h_iteration = 0, h_b = 3, h_mse = 25 / 4, h_gradient = - 3\<rparr>],
       isRunning = True\<rparr>"
    and "mainData (midRunWorld lr its) = mainData_literal\<lparr>optimalB := Some (9 / 2)\<rparr>"
    and "learningRateInput (midRunWorld lr its) = lr"
    and "iterationsInput (midRunWorld lr its) = its"
  using assms
  by (simp_all add: midRunWorld_def hd_suspensions_run_world pageWorld_simps pageData_metrics
        spec_descentEntry_def power2_eq_square)

subsection \<open>A handler at the first suspension point of a run\<close>

lemma randomizeClick_simps:
  "gdState (randomizeClick rnd w) = (gdState w)\<lparr>currentB := rnd * 20 - 10, history := []\<rparr>"
  "mainData (randomizeClick rnd w) = mainData w"
  by (simp_all add: randomizeClick_def Let_def domEffect_def setCurrentB_def
        clearIterationsTable_def)

lemma resumeAfter_randomize_run:
  assumes "\<not> isRunning (gdState w)" and "0 < iterationsInput w"
  shows "map h_iteration
      (history (gdState (resumeAfter (randomizeClick rnd) (runGradientDescent w)))) =
    [1..<nat (iterationsInput w)]"
proof -
  have nums: "map h_iteration (map (spec_descentEntry D lr b 1) [0..<n]) = [1..<Suc n]" for D lr b n
    by (induction n) (simp_all add: spec_descentEntry_def)
  from assms(2) have n: "Suc (nat (iterationsInput w - 1)) = nat (iterationsInput w)"
    by simp
  have "history (gdState (resumeAfter (randomizeClick rnd) (runGradientDescent w))) =
      map (spec_descentEntry (mainData w) (learningRateInput w) 
             (currentB (gdState w)
                - learningRateInput w * computeMSEDerivative (mainData w) (currentB (gdState w))) 1)
        [0..<nat (iterationsInput w - 1)]"
    using assms
    apply (simp add: runGradientDescent_def Let_def resumeAfter_def)
    apply (subst runLoop.simps)
    apply (simp add: Let_def animateGradientDescentStep_def)
    apply (subst animateLoop.simps)
    apply (simp add: Let_def runToCompletion_bindTask runToCompletion_animateLoop gdState_runLoop
        mainData_runLoop randomizeClick_simps pushHistory_def addIterationRow_def domEffect_def
        clearIterationsTable_def setCurrentB_def)
    done
  then show ?thesis
    by (simp only: nums n)
qed

subsection \<open>A run with handlers at its suspension points\<close>

lemma runInterleaved_Nil: "runInterleaved t [] = runToCompletion t"
  by (induction t) simp_all

lemma set_handlersLeft: "set (handlersLeft t hs) \<subseteq> set hs"
proof (induction t arbitrary: hs)
  case (Finished w)
  show ?case by simp
next
  case (Await d w c)
  show ?case
  proof (cases hs)
    case Nil
    then show ?thesis by simp
  next
    case (Cons h hs')
    have "set (handlersLeft (c (h w)) hs') \<subseteq> set hs'"
      by (rule Await.IH) simp
    with Cons show ?thesis by auto
  qed
qed

lemma runInterleaved_bindTask:
  "runInterleaved (bindTask t k) hs =
     runInterleaved (k (runInterleaved t hs)) (handlersLeft t hs)"
proof (induction t arbitrary: hs)
  case (Finished w)
  show ?case by simp
next
  case (Await d w c)
  show ?case
    by (cases hs) (simp_all add: Await runInterleaved_Nil runToCompletion_bindTask)
qed

lemma runInterleaved_animateLoop:
  assumes "\<forall>h\<in>set hs. \<forall>v. history (gdState (h v)) = history (gdState v) \<and> mainData (h v) = mainData v"
    and "(case onDone of None \<Rightarrow> (\<lambda>v. v) | Some f \<Rightarrow> f) = (\<lambda>v. v)"
  shows "currentB (gdState (runInterleaved (animateLoop i steps d oldB newB onDone w) hs)) = newB
    \<and> history (gdState (runInterleaved (animateLoop i steps d oldB newB onDone w) hs)) =
        history (gdState w)
    \<and> mainData (runInterleaved (animateLoop i steps d oldB newB onDone w) hs) = mainData w"
  using assms
proof (induction i steps d oldB newB onDone w arbitrary: hs rule: animateLoop.induct)
  case (1 i steps d oldB newB onDone w)
  note cb = "1.prems"(2)
  show ?case
  proof (cases "i \<le> steps")
    case True
    note IH = "1.IH" [OF True refl refl refl refl refl refl, unfolded Suc_eq_plus1 [symmetric]]
    show ?thesis
    proof (cases hs)
      case Nil
      then show ?thesis
        by (subst (1 2 3) animateLoop.simps)
           (simp add: True Let_def runInterleaved_Nil runToCompletion_animateLoop cb
              setCurrentB_def domEffect_def)
    next
      case (Cons h hs')
      with "1.prems" have keep: "\<And>v. history (gdState (h v)) = history (gdState v)"
          "\<And>v. mainData (h v) = mainData v"
        and rest: "\<forall>h\<in>set hs'. \<forall>v. history (gdState (h v)) = history (gdState v) \<and> mainData (h v) = mainData v"
        by simp_all
      note step = IH [OF rest cb]
      show ?thesis
        by (subst (1 2 3) animateLoop.simps)
           (simp add: True Let_def Cons step keep setCurrentB_def domEffect_def)
    qed
  next
    case False
    with cb show ?thesis
      by (subst (1 2 3) animateLoop.simps)
         (auto simp add: Let_def setCurrentB_def domEffect_def split: option.splits)
  qed
qed

lemma runInterleaved_animate:
  assumes "\<forall>h\<in>set hs. \<forall>v. history (gdState (h v)) = history (gdState v) \<and> mainData (h v) = mainData v"
  shows "currentB (gdState (runInterleaved (animateGradientDescentStep oldB newB (Some (\<lambda>v. v)) w) hs)) = newB"
    and "history (gdState (runInterleaved (animateGradientDescentStep oldB newB (Some (\<lambda>v. v)) w) hs)) =
        history (gdState w)"
    and "mainData (runInterleaved (animateGradientDescentStep oldB newB (Some (\<lambda>v. v)) w) hs) = mainData w"
proof -
  have cb: "(case Some (\<lambda>v. v) of None \<Rightarrow> (\<lambda>v. v) | Some f \<Rightarrow> f) = (\<lambda>v::World. v)"
    by simp
  note loop = runInterleaved_animateLoop [OF assms cb]
  show "currentB (gdState (runInterleaved (animateGradientDescentStep oldB newB (Some (\<lambda>v. v)) w) hs)) = newB"
    and "history (gdState (runInterleaved (animateGradientDescentStep oldB newB (Some (\<lambda>v. v)) w) hs)) =
        history (gdState w)"
    and "mainData (runInterleaved (animateGradientDescentStep oldB newB (Some (\<lambda>v. v)) w) hs) = mainData w"
    using loop by (simp_all add: animateGradientDescentStep_def Let_def)
qed

lemma runInterleaved_runLoop:
  assumes "\<forall>h\<in>set hs. \<forall>v. history (gdState (h v)) = history (gdState v) \<and> mainData (h v) = mainData v"
  shows "history (gdState (runInterleaved (runLoop i N lr w) hs)) =
      history (gdState w)
        @ map (spec_descentEntry (mainData w) lr (currentB (gdState w)) i) [0..<nat (N - int i)]"
  using assms
proof (induction i N lr w arbitrary: hs rule: runLoop.induct)
  case (1 i N lr w)
  show ?case
  proof (cases "int i < N")
    case True
    note IH = "1.IH" [OF True refl refl refl refl refl refl]
    from True have n: "nat (N - int i) = Suc (nat (N - int (i + 1)))"
      by simp
    let ?b = "currentB (gdState w)"
    let ?nb = "?b - lr * computeMSEDerivative (mainData w) ?b"
    let ?w2 = "addIterationRow i ?b (computeMSE (mainData w) ?b) (computeMSEDerivative (mainData w) ?b)
        (pushHistory \<lparr>h_iteration = i, h_b = ?b, h_mse = computeMSE (mainData w) ?b,
                      h_gradient = computeMSEDerivative (mainData w) ?b\<rparr> w)"
    let ?T = "animateGradientDescentStep ?b ?nb (Some (\<lambda>v. v)) ?w2"
    have rest: "\<forall>h\<in>set (handlersLeft ?T hs).
        \<forall>v. history (gdState (h v)) = history (gdState v) \<and> mainData (h v) = mainData v"
      using "1.prems" set_handlersLeft [of ?T hs] by blast
    have after: "currentB (gdState (runInterleaved ?T hs)) = ?nb"
      "history (gdState (runInterleaved ?T hs)) = history (gdState ?w2)"
      "mainData (runInterleaved ?T hs) = mainData ?w2"
      using runInterleaved_animate [OF "1.prems"] by blast+
    have w2: "history (gdState ?w2) = history (gdState w)
          @ [spec_descentEntry (mainData w) lr ?b i 0]"
      "mainData ?w2 = mainData w"
      by (simp_all add: pushHistory_def addIterationRow_def domEffect_def spec_descentEntry_def)
    have "runInterleaved (runLoop i N lr w) hs =
        runInterleaved (runLoop (i + 1) N lr (runInterleaved ?T hs)) (handlersLeft ?T hs)"
      by (subst runLoop.simps) (simp only: True if_True Let_def runInterleaved_bindTask)
    then show ?thesis
      by (simp only: IH [OF rest] after w2 n spec_descentEntry_upt spec_descentB.simps) simp
  next
    case False
    then show ?thesis
      by (subst runLoop.simps) simp
  qed
qed

lemma runInterleaved_run:
  assumes "\<not> isRunning (gdState w)"
    and "\<forall>h\<in>set hs. \<forall>v. history (gdState (h v)) = history (gdState v) \<and> mainData (h v) = mainData v"
  shows "history (gdState (runInterleaved (runGradientDescent w) hs)) =
      map (spec_descentEntry (mainData w) (learningRateInput w) (currentB (gdState w)) 0)
        [0..<nat (iterationsInput w)]"
  using assms(1)
  by (simp add: runGradientDescent_def Let_def runInterleaved_runLoop [OF assms(2)]
        clearIterationsTable_def domEffect_def)

lemma steppedWorld_simps:
  "gdState (steppedWorld lr its) =
     \<lparr>currentB = 3 + lr * 3,
      history = [\<lparr>h_iteration = 0, h_b = 3, h_mse = 25 / 4, h_gradient = - 3\<rparr>],
      isRunning = False\<rparr>"
  "mainData (steppedWorld lr its) = mainData_literal\<lparr>optimalB := Some (9 / 2)\<rparr>"
  "learningRateInput (steppedWorld lr its) = lr"
  "iterationsInput (steppedWorld lr its) = its"
  by (simp_all add: steppedWorld_def runToCompletion_step pageWorld_simps pageData_metrics
        spec_descentEntry_def power2_eq_square)

subsection \<open>Counting the display updates of an animation\<close>


subsection \<open>Rounding to a double\<close>

declare fadd.simps [simp del] fmul.simps [simp del] fdiv.simps [simp del] mathPow3.simps [simp del]

lemma two_le_of_power: "2 * 2 ^ j \<le> a \<Longrightarrow> 2 \<le> a" for a :: real
proof -
  assume "2 * 2 ^ j \<le> a"
  moreover have "(1::real) \<le> 2 ^ j" by simp
  ultimately show ?thesis by linarith
qed

lemma halvings_eq:
  "k \<le> n \<Longrightarrow> 2 ^ k \<le> a \<Longrightarrow> a < 2 ^ Suc k \<Longrightarrow> halvings n a = k"
proof (induction n arbitrary: a k)
  case 0
  then show ?case by simp
next
  case (Suc n)
  show ?case
  proof (cases k)
    case 0
    with Suc.prems show ?thesis by simp
  next
    case (Suc j)
    with Suc.prems have "2 \<le> a"
      by (intro two_le_of_power [of j]) simp
    moreover from Suc Suc.prems have "halvings n (a / 2) = j"
      by (intro Suc.IH) (simp_all add: field_simps)
    ultimately show ?thesis
      using Suc by simp
  qed
qed

lemma lt_one_of_power: "0 \<le> a \<Longrightarrow> a * 2 * 2 ^ j < 2 \<Longrightarrow> a < 1" for a :: real
proof -
  assume a: "0 \<le> a" and "a * 2 * 2 ^ j < 2"
  moreover have "a * 2 * 1 \<le> a * 2 * 2 ^ j"
    using a by (intro mult_left_mono) simp_all
  ultimately show ?thesis by linarith
qed

lemma doublings_all: "0 \<le> a \<Longrightarrow> a * 2 ^ n < 1 \<Longrightarrow> doublings n a = n"
proof (induction n arbitrary: a)
  case 0
  then show ?case by simp
next
  case (Suc n)
  from Suc.prems have "a < 1"
    by (intro lt_one_of_power [of a n]) simp_all
  moreover from Suc.prems have "doublings n (a * 2) = n"
    by (intro Suc.IH) (simp_all add: mult.assoc)
  ultimately show ?case by simp
qed

lemma doublings_eq:
  "k \<le> n \<Longrightarrow> 0 \<le> a \<Longrightarrow> 1 \<le> a * 2 ^ k \<Longrightarrow> a * 2 ^ k < 2 \<Longrightarrow> a < 1 \<Longrightarrow> doublings n a = k"
proof (induction n arbitrary: a k)
  case 0
  then show ?case by simp
next
  case (Suc n)
  show ?case
  proof (cases k)
    case 0
    with Suc.prems show ?thesis by simp
  next
    case k: (Suc j)
    show ?thesis
    proof (cases "a * 2 < 1")
      case True
      with k Suc.prems have "doublings n (a * 2) = j"
        by (intro Suc.IH) (simp_all add: mult.assoc)
      with Suc.prems k show ?thesis by simp
    next
      case False
      have "j = 0"
      proof (rule ccontr)
        assume "j \<noteq> 0"
        then obtain i where i: "j = Suc i" by (cases j) auto
        from Suc.prems k i have "a * 2 * 2 * 2 ^ i < 2"
          by (simp add: mult.assoc)
        then have "a * 2 < 1"
          using Suc.prems by (intro lt_one_of_power [of "a * 2" i]) simp_all
        with False show False by simp
      qed
      with Suc.prems k False show ?thesis
        by (cases n) simp_all
    qed
  qed
qed

lemma binade_nonneg:
  assumes "k \<le> 1023" and "2 ^ k \<le> \<bar>x\<bar>" and "\<bar>x\<bar> < 2 ^ Suc k"
  shows "binade x = int k"
proof -
  have "(1::real) \<le> 2 ^ k" by simp
  with assms have "1 \<le> \<bar>x\<bar>" by linarith
  moreover from assms have "halvings 1023 \<bar>x\<bar> = k"
    by (intro halvings_eq)
  ultimately show ?thesis
    by (simp only: binade_def if_True)
qed

lemma binade_neg:
  assumes "0 < k" and "k \<le> 1022" and "1 \<le> \<bar>x\<bar> * 2 ^ k" and "\<bar>x\<bar> * 2 ^ k < 2"
  shows "binade x = - int k"
proof -
  from assms(1) obtain j where j: "k = Suc j" by (cases k) auto
  from assms(4) have lt1: "\<bar>x\<bar> < 1"
    unfolding j by (intro lt_one_of_power [of "\<bar>x\<bar>" j]) (simp_all add: mult.assoc)
  from assms lt1 have "doublings 1022 \<bar>x\<bar> = k"
    by (intro doublings_eq) simp_all
  with lt1 show ?thesis
    by (simp add: binade_def)
qed

lemma binade_subnormal:
  assumes "\<bar>x\<bar> * 2 ^ 1022 < 1"
  shows "binade x = - 1022"
proof -
  from assms have "doublings 1022 \<bar>x\<bar> = 1022"
    by (intro doublings_all) simp_all
  moreover have "\<bar>x\<bar> < 1"
  proof -
    have "\<bar>x\<bar> * 1 \<le> \<bar>x\<bar> * 2 ^ 1022"
      by (intro mult_left_mono) simp_all
    with assms show ?thesis by linarith
  qed
  ultimately show ?thesis
    by (simp add: binade_def)
qed

lemma roundEven_near: "\<bar>r - of_int m\<bar> < 1 / 2 \<Longrightarrow> roundEven r = m"
proof -
  assume near: "\<bar>r - of_int m\<bar> < 1 / 2"
  show ?thesis
  proof (cases "of_int m \<le> r")
    case True
    with near have "\<lfloor>r\<rfloor> = m"
      by (intro floor_unique) linarith+
    with near True show ?thesis
      by (simp add: roundEven_def Let_def)
  next
    case False
    with near have f: "\<lfloor>r\<rfloor> = m - 1"
      by (intro floor_unique; simp; linarith)
    from near False have "1 / 2 < r - of_int (m - 1)"
      by simp
    then have "\<not> r - of_int (m - 1) < 1 / 2" "1 / 2 < r - of_int (m - 1)"
      by simp_all
    with f show ?thesis
      by (simp add: roundEven_def Let_def)
  qed
qed

lemma roundEven_tie: "roundEven (of_int f + 1 / 2) = (if even f then f else f + 1)"
proof -
  have "\<lfloor>of_int f + 1 / 2 :: real\<rfloor> = f"
    by (intro floor_unique) simp_all
  then show ?thesis
    by (simp add: roundEven_def Let_def)
qed


lemma rnd_near:
  assumes b: "binade x = e"
    and near: "\<bar>x - of_int m * 2 powi (e - 52)\<bar> < 2 powi (e - 53)"
    and fin: "\<bar>of_int m * (2::real) powi (e - 52)\<bar> < 2 ^ 1024"
  shows "roundDouble x = Fin (of_int m * 2 powi (e - 52))"
proof -
  let ?u = "(2::real) powi (e - 52)"
  have u: "0 < ?u" by simp
  have half: "(2::real) powi (e - 53) = ?u / 2"
    by (simp add: power_int_diff)
  have "x / ?u - of_int m = (x - of_int m * ?u) / ?u"
    using u by (simp add: field_simps)
  then have "\<bar>x / ?u - of_int m\<bar> = \<bar>x - of_int m * ?u\<bar> / ?u"
    using u by (simp add: abs_divide del: power_int_diff)
  also from near half have "\<dots> < (?u / 2) / ?u"
    using u by (intro divide_strict_right_mono) simp_all
  also have "\<dots> = 1 / 2" using u by simp
  finally have "roundEven (x / ?u) = m"
    by (rule roundEven_near)
  moreover from fin have "\<not> 2 ^ 1024 \<le> of_int m * ?u" "\<not> of_int m * ?u \<le> - (2 ^ 1024)"
    by linarith+
  ultimately show ?thesis
    unfolding roundDouble_def Let_def b by (simp only: if_False)
qed

lemma rnd_tie:
  assumes b: "binade x = e"
    and tie: "x = (of_int f + 1 / 2) * 2 powi (e - 52)"
    and fin: "\<bar>of_int (if even f then f else f + 1) * (2::real) powi (e - 52)\<bar> < 2 ^ 1024"
  shows "roundDouble x = Fin (of_int (if even f then f else f + 1) * 2 powi (e - 52))"
proof -
  let ?u = "(2::real) powi (e - 52)"
  let ?m = "if even f then f else f + 1"
  have "x / ?u = of_int f + 1 / 2"
    unfolding tie by simp
  then have "roundEven (x / ?u) = ?m"
    by (simp only: roundEven_tie)
  moreover from fin have "\<not> 2 ^ 1024 \<le> of_int ?m * ?u" "\<not> of_int ?m * ?u \<le> - (2 ^ 1024)"
    by linarith+
  ultimately show ?thesis
    unfolding roundDouble_def Let_def b by (simp only: if_False)
qed

lemma rnd_eval_pos:
  assumes "k \<le> 1023" and "2 ^ k \<le> \<bar>x\<bar>" and "\<bar>x\<bar> < 2 ^ Suc k"
    and "y = of_int m * 2 powi (int k - 52)"
    and "\<bar>x - y\<bar> < 2 powi (int k - 53)"
    and "\<bar>y\<bar> < 2 ^ 1024"
  shows "roundDouble x = Fin y"
  unfolding assms(4)
  by (rule rnd_near) (use assms in \<open>simp_all add: binade_nonneg\<close>)

lemma rnd_eval_neg:
  assumes "0 < k" and "k \<le> 1022" and "1 \<le> \<bar>x\<bar> * 2 ^ k" and "\<bar>x\<bar> * 2 ^ k < 2"
    and "y = of_int m * 2 powi (- int k - 52)"
    and "\<bar>x - y\<bar> < 2 powi (- int k - 53)"
    and "\<bar>y\<bar> < 2 ^ 1024"
  shows "roundDouble x = Fin y"
  unfolding assms(5)
  by (rule rnd_near) (use assms in \<open>simp_all add: binade_neg\<close>)

lemma rnd_eval_sub:
  assumes "\<bar>x\<bar> * 2 ^ 1022 < 1"
    and "y = of_int m * 2 powi (- 1074)"
    and "\<bar>x - y\<bar> < 2 powi (- 1075)"
    and "\<bar>y\<bar> < 2 ^ 1024"
  shows "roundDouble x = Fin y"
proof -
  have e: "(- 1022 :: int) - 52 = - 1074" "(- 1022 :: int) - 53 = - 1075"
    by simp_all
  have "roundDouble x = Fin (of_int m * 2 powi (- 1022 - 52))"
  proof (rule rnd_near)
    show "binade x = - 1022"
      using assms(1) by (rule binade_subnormal)
    show "\<bar>x - of_int m * 2 powi (- 1022 - 52)\<bar> < 2 powi (- 1022 - 53)"
      unfolding e using assms(2, 3) by (simp only:)
    show "\<bar>of_int m * (2::real) powi (- 1022 - 52)\<bar> < 2 ^ 1024"
      unfolding e using assms(2, 4) by (simp only:)
  qed
  then show ?thesis
    unfolding e assms(2) .
qed

lemma rnd_tie_pos:
  assumes "k \<le> 1023" and "2 ^ k \<le> \<bar>x\<bar>" and "\<bar>x\<bar> < 2 ^ Suc k"
    and "x = (of_int f + 1 / 2) * 2 powi (int k - 52)"
    and "y = of_int (if even f then f else f + 1) * 2 powi (int k - 52)"
    and "\<bar>y\<bar> < 2 ^ 1024"
  shows "roundDouble x = Fin y"
  unfolding assms(5)
  by (rule rnd_tie) (use assms in \<open>simp_all add: binade_nonneg\<close>)

lemma rnd_tie_neg:
  assumes "0 < k" and "k \<le> 1022" and "1 \<le> \<bar>x\<bar> * 2 ^ k" and "\<bar>x\<bar> * 2 ^ k < 2"
    and "x = (of_int f + 1 / 2) * 2 powi (- int k - 52)"
    and "y = of_int (if even f then f else f + 1) * 2 powi (- int k - 52)"
    and "\<bar>y\<bar> < 2 ^ 1024"
  shows "roundDouble x = Fin y"
  unfolding assms(6)
  by (rule rnd_tie) (use assms in \<open>simp_all add: binade_neg\<close>)




lemma fadd_fin: "roundDouble (a + b) = r \<Longrightarrow> fadd (Fin a) (Fin b) = r"
  by (simp add: fadd.simps)

lemma fsub_fin: "roundDouble (a - b) = r \<Longrightarrow> fsub (Fin a) (Fin b) = r"
  by (simp add: fsub_def fadd.simps)

lemma fmul_fin: "roundDouble (a * b) = r \<Longrightarrow> fmul (Fin a) (Fin b) = r"
  by (simp add: fmul.simps)

lemma fdiv_fin: "b \<noteq> 0 \<Longrightarrow> roundDouble (a / b) = r \<Longrightarrow> fdiv (Fin a) (Fin b) = r"
  by (simp add: fdiv.simps)


subsection \<open>The mean squared error in doubles\<close>










subsection \<open>Evaluations in doubles\<close>

lemma thirdsData_f64:
  "computeOptimalB_f64 thirdsData = Fin (6004799503160661 / 4503599627370496)"
  "computeMSEDerivative_f64 thirdsData (Fin (6004799503160661 / 4503599627370496)) = Fin (- (6004799503160661 / 40564819207303340847894502572032))"
proof -
  have a1: "fadd (Fin 0) (Fin 1) = Fin 1"
    by (rule fadd_fin, rule rnd_eval_pos [where k = 0 and m = "4503599627370496"]) (simp_all add: power_int_minus field_simps)
  have a2: "fadd (Fin 1) (Fin 1) = Fin 2"
    by (rule fadd_fin, rule rnd_eval_pos [where k = 1 and m = "4503599627370496"]) (simp_all add: power_int_minus field_simps)
  have a3: "fadd (Fin 2) (Fin 2) = Fin 4"
    by (rule fadd_fin, rule rnd_eval_pos [where k = 2 and m = "4503599627370496"]) (simp_all add: power_int_minus field_simps)
  have a4: "fdiv (Fin 4) (Fin 3) = Fin (6004799503160661 / 4503599627370496)"
    by (rule fdiv_fin, simp, rule rnd_eval_pos [where k = 0 and m = "6004799503160661"]) (simp_all add: power_int_minus field_simps)
  have a5: "fsub (Fin 1) (Fin (6004799503160661 / 4503599627370496)) = Fin (- (1501199875790165 / 4503599627370496))"
    by (rule fsub_fin, rule rnd_eval_neg [where k = 2 and m = "- 6004799503160660"]) (simp_all add: power_int_minus field_simps)
  have a6: "fsub (Fin 2) (Fin (6004799503160661 / 4503599627370496)) = Fin (3002399751580331 / 4503599627370496)"
    by (rule fsub_fin, rule rnd_eval_neg [where k = 1 and m = "6004799503160662"]) (simp_all add: power_int_minus field_simps)
  have a7: "fadd (Fin 0) (Fin (- (1501199875790165 / 4503599627370496))) = Fin (- (1501199875790165 / 4503599627370496))"
    by (rule fadd_fin, rule rnd_eval_neg [where k = 2 and m = "- 6004799503160660"]) (simp_all add: power_int_minus field_simps)
  have a8: "fadd (Fin (- (1501199875790165 / 4503599627370496))) (Fin (- (1501199875790165 / 4503599627370496))) = Fin (- (1501199875790165 / 2251799813685248))"
    by (rule fadd_fin, rule rnd_eval_neg [where k = 1 and m = "- 6004799503160660"]) (simp_all add: power_int_minus field_simps)
  have a9: "fadd (Fin (- (1501199875790165 / 2251799813685248))) (Fin (3002399751580331 / 4503599627370496)) = Fin (1 / 4503599627370496)"
    by (rule fadd_fin, rule rnd_eval_neg [where k = 52 and m = "4503599627370496"]) (simp_all add: power_int_minus field_simps)
  have a10: "fdiv (Fin 2) (Fin 3) = Fin (6004799503160661 / 9007199254740992)"
    by (rule fdiv_fin, simp, rule rnd_eval_neg [where k = 1 and m = "6004799503160661"]) (simp_all add: power_int_minus field_simps)
  have a11: "fmul (Fin (- (6004799503160661 / 9007199254740992))) (Fin (1 / 4503599627370496)) = Fin (- (6004799503160661 / 40564819207303340847894502572032))"
    by (rule fmul_fin, rule rnd_eval_neg [where k = 53 and m = "- 6004799503160661"]) (simp_all add: power_int_minus field_simps)
  show "computeOptimalB_f64 thirdsData = Fin (6004799503160661 / 4503599627370496)"
    by (simp add: computeOptimalB_f64_def thirdsData_def a1 a2 a3 a4 a5 a6 a7 a8 a9 a10 a11)
  show "computeMSEDerivative_f64 thirdsData (Fin (6004799503160661 / 4503599627370496)) = Fin (- (6004799503160661 / 40564819207303340847894502572032))"
    by (simp add: computeMSEDerivative_f64_def thirdsData_def a1 a2 a3 a4 a5 a6 a7 a8 a9 a10 a11)
qed

lemma tenthData_f64:
  "computeOptimalB_f64 tenthData = Fin (1951559838527215 / 2251799813685248)"
  "computeMSEDerivative_f64 tenthData (Fin (1951559838527215 / 2251799813685248)) = Fin 0"
  "computeMSEDerivative_f64 tenthData (Fin (7806239354108859 / 9007199254740992)) = Fin 0"
proof -
  have a1: "fadd (Fin 0) (Fin (1 / 2)) = Fin (1 / 2)"
    by (rule fadd_fin, rule rnd_eval_neg [where k = 1 and m = "4503599627370496"]) (simp_all add: power_int_minus field_simps)
  have a2: "fadd (Fin (1 / 2)) (Fin (3602879701896397 / 36028797018963968)) = Fin (5404319552844595 / 9007199254740992)"
    by (rule fadd_fin, rule rnd_eval_neg [where k = 1 and m = "5404319552844595"]) (simp_all add: power_int_minus field_simps)
  have a3: "fadd (Fin (5404319552844595 / 9007199254740992)) (Fin 2) = Fin (5854679515581645 / 2251799813685248)"
    by (rule fadd_fin, rule rnd_eval_pos [where k = 1 and m = "5854679515581645"]) (simp_all add: power_int_minus field_simps)
  have a4: "fdiv (Fin (5854679515581645 / 2251799813685248)) (Fin 3) = Fin (1951559838527215 / 2251799813685248)"
    by (rule fdiv_fin, simp, rule rnd_eval_neg [where k = 1 and m = "7806239354108860"]) (simp_all add: power_int_minus field_simps)
  have a5: "fsub (Fin (1 / 2)) (Fin (1951559838527215 / 2251799813685248)) = Fin (- (825659931684591 / 2251799813685248))"
    by (rule fsub_fin, rule rnd_eval_neg [where k = 2 and m = "- 6605279453476728"]) (simp_all add: power_int_minus field_simps)
  have a6: "fsub (Fin (3602879701896397 / 36028797018963968)) (Fin (1951559838527215 / 2251799813685248)) = Fin (- (6905519428634761 / 9007199254740992))"
    by (rule fsub_fin, rule rnd_eval_neg [where k = 1 and m = "- 6905519428634761"]) (simp_all add: power_int_minus field_simps)
  have a7: "fsub (Fin 2) (Fin (1951559838527215 / 2251799813685248)) = Fin (2552039788843281 / 2251799813685248)"
    by (rule fsub_fin, rule rnd_eval_pos [where k = 0 and m = "5104079577686562"]) (simp_all add: power_int_minus field_simps)
  have a8: "fadd (Fin 0) (Fin (- (825659931684591 / 2251799813685248))) = Fin (- (825659931684591 / 2251799813685248))"
    by (rule fadd_fin, rule rnd_eval_neg [where k = 2 and m = "- 6605279453476728"]) (simp_all add: power_int_minus field_simps)
  have a9: "fadd (Fin (- (825659931684591 / 2251799813685248))) (Fin (- (6905519428634761 / 9007199254740992))) = Fin (- (2552039788843281 / 2251799813685248))"
    by (rule fadd_fin, rule rnd_tie_pos [where k = 0 and f = "- 5104079577686563"]) (simp_all add: power_int_minus field_simps)
  have a10: "fadd (Fin (- (2552039788843281 / 2251799813685248))) (Fin (2552039788843281 / 2251799813685248)) = Fin 0"
    by (rule fadd_fin, rule rnd_eval_sub [where m = 0]) (simp_all add: power_int_minus field_simps)
  have a11: "fdiv (Fin 2) (Fin 3) = Fin (6004799503160661 / 9007199254740992)"
    by (rule fdiv_fin, simp, rule rnd_eval_neg [where k = 1 and m = "6004799503160661"]) (simp_all add: power_int_minus field_simps)
  have a12: "fmul (Fin (- (6004799503160661 / 9007199254740992))) (Fin 0) = Fin 0"
    by (rule fmul_fin, rule rnd_eval_sub [where m = 0]) (simp_all add: power_int_minus field_simps)
  have a13: "fsub (Fin (1 / 2)) (Fin (7806239354108859 / 9007199254740992)) = Fin (- (3302639726738363 / 9007199254740992))"
    by (rule fsub_fin, rule rnd_eval_neg [where k = 2 and m = "- 6605279453476726"]) (simp_all add: power_int_minus field_simps)
  have a14: "fsub (Fin (3602879701896397 / 36028797018963968)) (Fin (7806239354108859 / 9007199254740992)) = Fin (- (863189928579345 / 1125899906842624))"
    by (rule fsub_fin, rule rnd_eval_neg [where k = 1 and m = "- 6905519428634760"]) (simp_all add: power_int_minus field_simps)
  have a15: "fsub (Fin 2) (Fin (7806239354108859 / 9007199254740992)) = Fin (2552039788843281 / 2251799813685248)"
    by (rule fsub_fin, rule rnd_tie_pos [where k = 0 and f = "5104079577686562"]) (simp_all add: power_int_minus field_simps)
  have a16: "fadd (Fin 0) (Fin (- (3302639726738363 / 9007199254740992))) = Fin (- (3302639726738363 / 9007199254740992))"
    by (rule fadd_fin, rule rnd_eval_neg [where k = 2 and m = "- 6605279453476726"]) (simp_all add: power_int_minus field_simps)
  have a17: "fadd (Fin (- (3302639726738363 / 9007199254740992))) (Fin (- (863189928579345 / 1125899906842624))) = Fin (- (2552039788843281 / 2251799813685248))"
    by (rule fadd_fin, rule rnd_tie_pos [where k = 0 and f = "- 5104079577686562"]) (simp_all add: power_int_minus field_simps)
  show "computeOptimalB_f64 tenthData = Fin (1951559838527215 / 2251799813685248)"
    by (simp add: computeOptimalB_f64_def tenthData_def a1 a2 a3 a4 a5 a6 a7 a8 a9 a10 a11 a12 a13 a14 a15 a16 a17)
  show "computeMSEDerivative_f64 tenthData (Fin (1951559838527215 / 2251799813685248)) = Fin 0"
    by (simp add: computeMSEDerivative_f64_def tenthData_def a1 a2 a3 a4 a5 a6 a7 a8 a9 a10 a11 a12 a13 a14 a15 a16 a17)
  show "computeMSEDerivative_f64 tenthData (Fin (7806239354108859 / 9007199254740992)) = Fin 0"
    by (simp add: computeMSEDerivative_f64_def tenthData_def a1 a2 a3 a4 a5 a6 a7 a8 a9 a10 a11 a12 a13 a14 a15 a16 a17)
qed

lemma mainData_f64:
  "computeOptimalB_f64 mainData_literal = Fin (9 / 2)"
  "computeMSEDerivative_f64 mainData_literal (Fin (9 / 2)) = Fin 0"
proof -
  have a1: "fadd (Fin 0) (Fin (5 / 2)) = Fin (5 / 2)"
    by (rule fadd_fin, rule rnd_eval_pos [where k = 1 and m = "5629499534213120"]) (simp_all add: power_int_minus field_simps)
  have a2: "fadd (Fin (5 / 2)) (Fin (13 / 2)) = Fin 9"
    by (rule fadd_fin, rule rnd_eval_pos [where k = 3 and m = "5066549580791808"]) (simp_all add: power_int_minus field_simps)
  have a3: "fdiv (Fin 9) (Fin 2) = Fin (9 / 2)"
    by (rule fdiv_fin, simp, rule rnd_eval_pos [where k = 2 and m = "5066549580791808"]) (simp_all add: power_int_minus field_simps)
  have a4: "fsub (Fin (5 / 2)) (Fin (9 / 2)) = Fin (- 2)"
    by (rule fsub_fin, rule rnd_eval_pos [where k = 1 and m = "- 4503599627370496"]) (simp_all add: power_int_minus field_simps)
  have a5: "fsub (Fin (13 / 2)) (Fin (9 / 2)) = Fin 2"
    by (rule fsub_fin, rule rnd_eval_pos [where k = 1 and m = "4503599627370496"]) (simp_all add: power_int_minus field_simps)
  have a6: "fadd (Fin 0) (Fin (- 2)) = Fin (- 2)"
    by (rule fadd_fin, rule rnd_eval_pos [where k = 1 and m = "- 4503599627370496"]) (simp_all add: power_int_minus field_simps)
  have a7: "fadd (Fin (- 2)) (Fin 2) = Fin 0"
    by (rule fadd_fin, rule rnd_eval_sub [where m = 0]) (simp_all add: power_int_minus field_simps)
  have a8: "fdiv (Fin 2) (Fin 2) = Fin 1"
    by (rule fdiv_fin, simp, rule rnd_eval_pos [where k = 0 and m = "4503599627370496"]) (simp_all add: power_int_minus field_simps)
  have a9: "fmul (Fin (- 1)) (Fin 0) = Fin 0"
    by (rule fmul_fin, rule rnd_eval_sub [where m = 0]) (simp_all add: power_int_minus field_simps)
  show "computeOptimalB_f64 mainData_literal = Fin (9 / 2)"
    by (simp add: computeOptimalB_f64_def mainData_literal_def a1 a2 a3 a4 a5 a6 a7 a8 a9)
  show "computeMSEDerivative_f64 mainData_literal (Fin (9 / 2)) = Fin 0"
    by (simp add: computeMSEDerivative_f64_def mainData_literal_def a1 a2 a3 a4 a5 a6 a7 a8 a9)
qed






subsection \<open>The rounding error on values of moderate size\<close>

lemma halvings_le: "a \<le> 2 ^ k \<Longrightarrow> halvings n a \<le> k"
proof (induction n arbitrary: a k)
  case 0
  show ?case by simp
next
  case (Suc n)
  show ?case
  proof (cases "2 \<le> a")
    case True
    with Suc.prems obtain j where j: "k = Suc j"
      by (cases k) auto
    with Suc.prems have "a / 2 \<le> 2 ^ j"
      by simp
    then have "halvings n (a / 2) \<le> j"
      by (rule Suc.IH)
    with True j show ?thesis
      by simp
  next
    case False
    then show ?thesis by simp
  qed
qed

lemma binade_le: "\<bar>x\<bar> \<le> 2 ^ k \<Longrightarrow> binade x \<le> int k"
  using halvings_le [of "\<bar>x\<bar>" k 1023] by (simp add: binade_def)

lemma roundEven_err: "\<bar>of_int (roundEven r) - r\<bar> \<le> 1 / 2"
  unfolding roundEven_def Let_def by (simp; linarith)

lemma rnd_close_gen:
  assumes "\<bar>x\<bar> \<le> 2 ^ k" and "k \<le> 1000"
  shows "\<exists>v. roundDouble x = Fin v \<and> \<bar>v - x\<bar> \<le> 2 ^ k / 2 ^ 53"
proof -
  let ?u = "(2::real) powi (binade x - 52)"
  let ?y = "of_int (roundEven (x / ?u)) * ?u"
  have u: "0 < ?u" by simp
  from assms(1) have "binade x \<le> int k"
    by (rule binade_le)
  then have "?u \<le> 2 powi (int k - 52)"
    by (intro power_int_increasing) simp_all
  also have "\<dots> = 2 ^ k / 2 ^ 52"
    by (simp add: power_int_diff)
  finally have ule: "?u \<le> 2 ^ k / 2 ^ 52" .
  have "?y - x = (of_int (roundEven (x / ?u)) - x / ?u) * ?u"
    using u by (simp add: field_simps)
  then have "\<bar>?y - x\<bar> = \<bar>of_int (roundEven (x / ?u)) - x / ?u\<bar> * ?u"
    using u by (simp add: abs_mult)
  also have "\<dots> \<le> (1 / 2) * ?u"
    by (intro mult_right_mono roundEven_err) simp
  also have "\<dots> \<le> (1 / 2) * (2 ^ k / 2 ^ 52)"
    using ule by (intro mult_left_mono) simp_all
  also have "\<dots> = 2 ^ k / 2 ^ 53"
    by simp
  finally have err: "\<bar>?y - x\<bar> \<le> 2 ^ k / 2 ^ 53" .
  have "(2::real) ^ k / 2 ^ 53 \<le> 2 ^ k / 1"
    by (intro divide_left_mono) simp_all
  then have small: "(2::real) ^ k / 2 ^ 53 \<le> 2 ^ k"
    by simp
  from err small assms(1) have "\<bar>?y\<bar> \<le> 2 ^ k + 2 ^ k"
    by linarith
  also have "\<dots> = 2 ^ Suc k"
    by simp
  also from assms(2) have "\<dots> < (2::real) ^ 1024"
    by (intro power_strict_increasing) simp_all
  finally have "\<not> 2 ^ 1024 \<le> ?y" "\<not> ?y \<le> - (2 ^ 1024)"
    by linarith+
  then have "roundDouble x = Fin ?y"
    unfolding roundDouble_def Let_def by (simp only: if_False)
  with err show ?thesis
    by blast
qed

lemma rnd_close:
  assumes "\<bar>x\<bar> \<le> 512"
  shows "\<exists>v. roundDouble x = Fin v \<and> \<bar>v - x\<bar> \<le> 1 / 2 ^ 44"
  using rnd_close_gen [of x 9] assms by simp

lemma rnd_close_wide:
  assumes "\<bar>x\<bar> \<le> 2048"
  shows "\<exists>v. roundDouble x = Fin v \<and> \<bar>v - x\<bar> \<le> 4 / 2 ^ 44"
  using rnd_close_gen [of x 11] assms by simp

lemma fadd_close:
  "\<bar>a + b\<bar> \<le> 512 \<Longrightarrow> \<exists>v. fadd (Fin a) (Fin b) = Fin v \<and> \<bar>v - (a + b)\<bar> \<le> 1 / 2 ^ 44"
  using rnd_close [of "a + b"] by (simp add: fadd.simps)

lemma fsub_close:
  "\<bar>a - b\<bar> \<le> 512 \<Longrightarrow> \<exists>v. fsub (Fin a) (Fin b) = Fin v \<and> \<bar>v - (a - b)\<bar> \<le> 1 / 2 ^ 44"
  using rnd_close [of "a - b"] by (simp add: fsub_def fadd.simps)


lemma fmul_close_wide:
  "\<bar>a * b\<bar> \<le> 2048 \<Longrightarrow> \<exists>v. fmul (Fin a) (Fin b) = Fin v \<and> \<bar>v - a * b\<bar> \<le> 4 / 2 ^ 44"
  using rnd_close_wide [of "a * b"] by (simp add: fmul.simps)

lemma fdiv_close:
  "b \<noteq> 0 \<Longrightarrow> \<bar>a / b\<bar> \<le> 512 \<Longrightarrow>
   \<exists>v. fdiv (Fin a) (Fin b) = Fin v \<and> \<bar>v - a / b\<bar> \<le> 1 / 2 ^ 44"
  using rnd_close [of "a / b"] by (simp add: fdiv.simps)


lemma abs_mult_le:
  fixes x y :: real
  assumes "\<bar>x\<bar> \<le> X" "\<bar>y\<bar> \<le> Y"
  shows "\<bar>x * y\<bar> \<le> X * Y"
proof -
  have "0 \<le> \<bar>x\<bar>" by simp
  with assms(1) have "0 \<le> X" by linarith
  with assms show ?thesis
    unfolding abs_mult by (intro mult_mono) simp_all
qed


subsection \<open>The interpolated value of a tick in doubles\<close>





subsection \<open>The mean and the derivative in doubles\<close>

lemma real_length_bounds:
  "ps \<noteq> [] \<Longrightarrow> 1 \<le> real (length ps)"
  "ps \<noteq> [] \<Longrightarrow> 0 < real (length ps)"
  "ps \<noteq> [] \<Longrightarrow> real (length ps) \<noteq> 0"
  by (cases ps; simp)+

lemma sum_list_abs_le:
  fixes x :: "'a \<Rightarrow> real"
  assumes "\<forall>p\<in>set ps. \<bar>x p\<bar> \<le> Y"
  shows "\<bar>\<Sum>p\<leftarrow>ps. x p\<bar> \<le> real (length ps) * Y"
  using assms
proof (induction ps)
  case Nil
  show ?case by simp
next
  case (Cons p ps)
  then have "\<bar>x p\<bar> \<le> Y" "\<bar>\<Sum>p\<leftarrow>ps. x p\<bar> \<le> real (length ps) * Y"
    by simp_all
  then have "\<bar>x p + (\<Sum>p\<leftarrow>ps. x p)\<bar> \<le> Y + real (length ps) * Y"
    by linarith
  then show ?case
    by (simp add: algebra_simps)
qed

lemma foldl_fadd_close:
  assumes all: "\<forall>p\<in>set ps. \<exists>v. g p = Fin v \<and> \<bar>v - x p\<bar> \<le> dl \<and> \<bar>v\<bar> \<le> K"
    and budget: "\<bar>s\<bar> + real (length ps) * (K + 1 / 2 ^ 44) \<le> 512"
  shows "\<exists>v. foldl (\<lambda>sum r. fadd sum r) (Fin s) (map g ps) = Fin v
      \<and> \<bar>v - (s + (\<Sum>p\<leftarrow>ps. x p))\<bar> \<le> real (length ps) * (dl + 1 / 2 ^ 44)"
  using assms
proof (induction ps arbitrary: s)
  case Nil
  show ?case by simp
next
  case (Cons p ps)
  define e :: real where "e = 1 / 2 ^ 44"
  have e: "0 < e"
    by (simp add: e_def)
  from Cons.prems(1) obtain v1 where v1: "g p = Fin v1" "\<bar>v1 - x p\<bar> \<le> dl" "\<bar>v1\<bar> \<le> K"
    by auto
  define A where "A = real (length ps) * (K + e)"
  define B where "B = real (length ps) * (dl + e)"
  from v1(3) have K: "0 \<le> K"
    by linarith
  with e have A: "0 \<le> A"
    unfolding A_def by simp
  from Cons.prems(2) [folded e_def] have bud: "\<bar>s\<bar> + (A + (K + e)) \<le> 512"
    unfolding A_def by (simp add: algebra_simps)
  with v1(3) A e have "\<bar>s + v1\<bar> \<le> 512"
    by linarith
  from fadd_close [OF this, folded e_def]
  obtain s' where s': "fadd (Fin s) (Fin v1) = Fin s'" "\<bar>s' - (s + v1)\<bar> \<le> e"
    by blast
  from s'(2) v1(3) bud have "\<bar>s'\<bar> + A \<le> 512"
    by linarith
  then have bud': "\<bar>s'\<bar> + real (length ps) * (K + 1 / 2 ^ 44) \<le> 512"
    unfolding A_def e_def .
  from Cons.prems(1)
  have all': "\<forall>p\<in>set ps. \<exists>v. g p = Fin v \<and> \<bar>v - x p\<bar> \<le> dl \<and> \<bar>v\<bar> \<le> K"
    by simp
  from Cons.IH [OF all' bud', folded e_def B_def]
  obtain v where v: "foldl (\<lambda>sum r. fadd sum r) (Fin s') (map g ps) = Fin v"
      "\<bar>v - (s' + (\<Sum>p\<leftarrow>ps. x p))\<bar> \<le> B"
    by blast
  from v(2) s'(2) v1(2) have "\<bar>v - (s + (x p + (\<Sum>p\<leftarrow>ps. x p)))\<bar> \<le> B + (dl + e)"
    by linarith
  moreover have "real (length (p # ps)) * (dl + e) = B + (dl + e)"
    unfolding B_def by (simp add: algebra_simps)
  ultimately have "\<exists>v. foldl (\<lambda>sum r. fadd sum r) (Fin s) (map g (p # ps)) = Fin v
      \<and> \<bar>v - (s + (\<Sum>p\<leftarrow>p # ps. x p))\<bar> \<le> real (length (p # ps)) * (dl + e)"
    using v(1) v1(1) s'(1) by simp
  then show ?case
    unfolding e_def .
qed

lemma computeOptimalB_f64_close:
  assumes ne: "points D \<noteq> []" and len: "length (points D) \<le> 8"
    and bnd: "\<forall>p\<in>set (points D). \<bar>p_y p\<bar> \<le> 20"
  shows "\<exists>m. computeOptimalB_f64 D = Fin m \<and> \<bar>m - computeOptimalB D\<bar> \<le> 2 / 2 ^ 44
      \<and> \<bar>computeOptimalB D\<bar> \<le> 20"
proof -
  define e :: real where "e = 1 / 2 ^ 44"
  have e: "0 < e" "e \<le> 3 / 50000000000000"
    by (simp_all add: e_def)
  define n where "n = real (length (points D))"
  define T where "T = (\<Sum>p\<leftarrow>points D. p_y p)"
  from len have n8: "n \<le> 8"
    unfolding n_def by simp
  note n = real_length_bounds(1) [OF ne, folded n_def] n8
    real_length_bounds(2) [OF ne, folded n_def] real_length_bounds(3) [OF ne, folded n_def]
  from sum_list_abs_le [OF bnd] have T: "\<bar>T\<bar> \<le> n * 20"
    unfolding T_def n_def .
  from bnd have all: "\<forall>p\<in>set (points D). \<exists>v. Fin (p_y p) = Fin v \<and> \<bar>v - p_y p\<bar> \<le> 0 \<and> \<bar>v\<bar> \<le> 20"
    by simp
  from n e have "n * (20 + e) \<le> 8 * (20 + e)"
    by (intro mult_right_mono) simp_all
  with e have "\<bar>0\<bar> + n * (20 + e) \<le> 512"
    by simp
  then have bud: "\<bar>0\<bar> + real (length (points D)) * (20 + 1 / 2 ^ 44) \<le> 512"
    unfolding n_def e_def .
  from foldl_fadd_close [OF all bud, folded e_def n_def T_def]
  obtain S where S: "foldl (\<lambda>sum r. fadd sum r) (Fin 0) (map (\<lambda>p. Fin (p_y p)) (points D)) = Fin S"
      "\<bar>S - (0 + T)\<bar> \<le> n * (0 + e)"
    by blast
  from S(2) have ST: "\<bar>S - T\<bar> \<le> n * e"
    by simp
  from n have "n * e \<le> 8 * e"
    using e by (intro mult_right_mono) simp_all
  moreover from n have "n * 20 \<le> 8 * 20"
    by simp
  ultimately have Sb: "\<bar>S\<bar> \<le> 161"
    using ST T e by linarith
  have "\<bar>S / n\<bar> = \<bar>S\<bar> / n"
    using n by simp
  also have "\<dots> \<le> \<bar>S\<bar> / 1"
    using n by (intro divide_left_mono) simp_all
  finally have "\<bar>S / n\<bar> \<le> 512"
    using Sb by simp
  from fdiv_close [OF n(4) this, folded e_def]
  obtain m where m: "fdiv (Fin S) (Fin n) = Fin m" "\<bar>m - S / n\<bar> \<le> e"
    by blast
  have "S / n - T / n = (S - T) / n"
    by (simp add: diff_divide_distrib)
  then have "\<bar>S / n - T / n\<bar> = \<bar>S - T\<bar> / n"
    using n by simp
  also from ST n have "\<dots> \<le> e"
    by (simp add: pos_divide_le_eq mult.commute)
  finally have "\<bar>S / n - T / n\<bar> \<le> e" .
  with m(2) have close: "\<bar>m - T / n\<bar> \<le> 2 * e"
    by linarith
  have "\<bar>T / n\<bar> = \<bar>T\<bar> / n"
    using n by simp
  also from T n have "\<dots> \<le> 20"
    by (simp add: pos_divide_le_eq mult.commute)
  finally have mean: "\<bar>T / n\<bar> \<le> 20" .
  have exact: "computeOptimalB D = T / n"
    by (simp add: computeOptimalB_sum T_def n_def)
  have "computeOptimalB_f64 D = Fin m"
    by (simp add: computeOptimalB_f64_def Let_def S(1) m(1) [unfolded n_def])
  with close mean show ?thesis
    unfolding exact e_def by simp
qed

lemma computeMSEDerivative_f64_close:
  assumes ne: "points D \<noteq> []" and len: "length (points D) \<le> 8"
    and bnd: "\<forall>p\<in>set (points D). \<bar>p_y p\<bar> \<le> 20" and b: "\<bar>b\<bar> \<le> 21"
  shows "\<exists>q S d. computeMSEDerivative_f64 D (Fin b) = Fin d
      \<and> \<bar>d - (- q * S)\<bar> \<le> 4 / 2 ^ 44
      \<and> \<bar>S - real (length (points D)) * (computeOptimalB D - b)\<bar> \<le> 16 / 2 ^ 44
      \<and> 1 / 5 \<le> q \<and> q \<le> 3"
proof -
  define e :: real where "e = 1 / 2 ^ 44"
  have e: "0 < e" "e \<le> 3 / 50000000000000"
    by (simp_all add: e_def)
  define n where "n = real (length (points D))"
  define T where "T = (\<Sum>p\<leftarrow>points D. p_y p)"
  from len have n8: "n \<le> 8"
    unfolding n_def by simp
  note n = real_length_bounds(1) [OF ne, folded n_def] n8
    real_length_bounds(2) [OF ne, folded n_def] real_length_bounds(3) [OF ne, folded n_def]
  have all: "\<forall>p\<in>set (points D). \<exists>v. fsub (Fin (p_y p)) (Fin b) = Fin v
      \<and> \<bar>v - (p_y p - b)\<bar> \<le> e \<and> \<bar>v\<bar> \<le> 42"
  proof
    fix p assume "p \<in> set (points D)"
    with bnd have y: "\<bar>p_y p\<bar> \<le> 20"
      by simp
    with b have "\<bar>p_y p - b\<bar> \<le> 512"
      by linarith
    from fsub_close [OF this, folded e_def]
    obtain v where v: "fsub (Fin (p_y p)) (Fin b) = Fin v" "\<bar>v - (p_y p - b)\<bar> \<le> e"
      by blast
    from v(2) y b e have "\<bar>v\<bar> \<le> 42"
      by linarith
    with v show "\<exists>v. fsub (Fin (p_y p)) (Fin b) = Fin v \<and> \<bar>v - (p_y p - b)\<bar> \<le> e \<and> \<bar>v\<bar> \<le> 42"
      by blast
  qed
  from n e have "n * (42 + e) \<le> 8 * (42 + e)"
    by (intro mult_right_mono) simp_all
  with e have "\<bar>0\<bar> + n * (42 + e) \<le> 512"
    by simp
  then have bud: "\<bar>0\<bar> + real (length (points D)) * (42 + 1 / 2 ^ 44) \<le> 512"
    unfolding n_def e_def .
  from foldl_fadd_close [OF all bud, folded e_def n_def]
  obtain S where S: "foldl (\<lambda>sum r. fadd sum r) (Fin 0)
        (map (\<lambda>p. fsub (Fin (p_y p)) (Fin b)) (points D)) = Fin S"
      "\<bar>S - (0 + (\<Sum>p\<leftarrow>points D. p_y p - b))\<bar> \<le> n * (e + e)"
    by blast
  have exact: "(\<Sum>p\<leftarrow>points D. p_y p - b) = n * (computeOptimalB D - b)"
    using n by (simp add: sum_list_residuals computeOptimalB_sum n_def field_simps)
  from n e have up: "n * (e + e) \<le> 8 * (e + e)"
    by (intro mult_right_mono) simp_all
  from S(2) have "\<bar>S - n * (computeOptimalB D - b)\<bar> \<le> n * (e + e)"
    by (simp only: exact add_0_left)
  from this up have "\<bar>S - n * (computeOptimalB D - b)\<bar> \<le> 8 * (e + e)"
    by (rule order_trans)
  then have SE: "\<bar>S - n * (computeOptimalB D - b)\<bar> \<le> 16 * e"
    by simp
  from sum_list_abs_le [OF bnd] have T: "\<bar>T\<bar> \<le> n * 20"
    unfolding T_def n_def .
  have "n * (computeOptimalB D - b) = T - n * b"
    using n by (simp add: computeOptimalB_sum T_def n_def field_simps)
  moreover from abs_mult_le [of n 8 b 21] n b have "\<bar>n * b\<bar> \<le> 168"
    by simp
  moreover from n have "n * 20 \<le> 160"
    by simp
  ultimately have "\<bar>n * (computeOptimalB D - b)\<bar> \<le> 328"
    using T by linarith
  with SE e have Sb: "\<bar>S\<bar> \<le> 329"
    by linarith
  from n have two: "1 / 4 \<le> 2 / n" "2 / n \<le> 2"
    by (simp_all add: field_simps)
  then have "\<bar>2 / n\<bar> \<le> 512"
    by linarith
  from fdiv_close [OF n(4) this, folded e_def]
  obtain q where q: "fdiv (Fin 2) (Fin n) = Fin q" "\<bar>q - 2 / n\<bar> \<le> e"
    by blast
  from q(2) two e have qb: "1 / 5 \<le> q" "q \<le> 3" "\<bar>- q\<bar> \<le> 3"
    by linarith+
  from abs_mult_le [OF qb(3) Sb] have "\<bar>- q * S\<bar> \<le> 2048"
    by simp
  from fmul_close_wide [OF this, folded e_def]
  obtain d where d: "fmul (Fin (- q)) (Fin S) = Fin d" "\<bar>d - - q * S\<bar> \<le> 4 / 2 ^ 44"
    by blast
  have val: "computeMSEDerivative_f64 D (Fin b) = Fin d"
    by (simp add: computeMSEDerivative_f64_def Let_def S(1) q(1) [unfolded n_def] d(1))
  from SE have "\<bar>S - real (length (points D)) * (computeOptimalB D - b)\<bar> \<le> 16 / 2 ^ 44"
    unfolding e_def n_def by simp
  with val d(2) qb(1,2) show ?thesis
    by blast
qed

lemma computeMSEDerivative_f64_at_mean:
  assumes ne: "points D \<noteq> []" and len: "length (points D) \<le> 8"
    and bnd: "\<forall>p\<in>set (points D). \<bar>p_y p\<bar> \<le> 20"
  shows "\<exists>m d. computeOptimalB_f64 D = Fin m \<and> \<bar>m - computeOptimalB D\<bar> \<le> 1 / 10 ^ 12
      \<and> computeMSEDerivative_f64 D (Fin m) = Fin d \<and> \<bar>d\<bar> \<le> 1 / 10 ^ 9"
proof -
  define e :: real where "e = 1 / 2 ^ 44"
  have e: "0 < e" "e \<le> 3 / 50000000000000"
    by (simp_all add: e_def)
  define n where "n = real (length (points D))"
  from len have n: "\<bar>n\<bar> \<le> 8"
    unfolding n_def by simp
  from computeOptimalB_f64_close [OF ne len bnd]
  obtain m where m: "computeOptimalB_f64 D = Fin m" "\<bar>m - computeOptimalB D\<bar> \<le> 2 * e"
      "\<bar>computeOptimalB D\<bar> \<le> 20"
    unfolding e_def by auto
  from m(2,3) e have "\<bar>m\<bar> \<le> 21"
    by linarith
  from computeMSEDerivative_f64_close [OF ne len bnd this, folded n_def]
  obtain q S d where d: "computeMSEDerivative_f64 D (Fin m) = Fin d"
      "\<bar>d - (- q * S)\<bar> \<le> 4 * e" "\<bar>S - n * (computeOptimalB D - m)\<bar> \<le> 16 * e"
      "1 / 5 \<le> q" "q \<le> 3"
    unfolding e_def by auto
  from m(2) have "\<bar>computeOptimalB D - m\<bar> \<le> 2 * e"
    by linarith
  from abs_mult_le [OF n this] have "\<bar>n * (computeOptimalB D - m)\<bar> \<le> 16 * e"
    by simp
  with d(3) have Sb: "\<bar>S\<bar> \<le> 32 * e"
    by linarith
  from d(4,5) have "\<bar>- q\<bar> \<le> 3"
    by linarith
  from abs_mult_le [OF this Sb] have "\<bar>- q * S\<bar> \<le> 96 * e"
    by simp
  with d(2) have "\<bar>d\<bar> \<le> 100 * e"
    by linarith
  with e have "\<bar>d\<bar> \<le> 1 / 1000000000"
    by linarith
  then have "\<bar>d\<bar> \<le> 1 / 10 ^ 9"
    by simp
  moreover from m(2) e have "\<bar>m - computeOptimalB D\<bar> \<le> 1 / 1000000000000"
    by linarith
  then have "\<bar>m - computeOptimalB D\<bar> \<le> 1 / 10 ^ 12"
    by simp
  ultimately show ?thesis
    using m(1) d(1) by blast
qed

lemma computeMSEDerivative_f64_root_near:
  assumes ne: "points D \<noteq> []" and len: "length (points D) \<le> 8"
    and bnd: "\<forall>p\<in>set (points D). \<bar>p_y p\<bar> \<le> 20" and b: "\<bar>b\<bar> \<le> 20"
    and root: "computeMSEDerivative_f64 D (Fin b) = Fin 0"
  shows "\<bar>b - computeOptimalB D\<bar> \<le> 1 / 10 ^ 11"
proof -
  define e :: real where "e = 1 / 2 ^ 44"
  have e: "0 < e" "e \<le> 3 / 50000000000000"
    by (simp_all add: e_def)
  define n where "n = real (length (points D))"
  define t where "t = computeOptimalB D - b"
  note n = real_length_bounds(1) [OF ne, folded n_def]
  from b have "\<bar>b\<bar> \<le> 21"
    by simp
  from computeMSEDerivative_f64_close [OF ne len bnd this, folded n_def t_def]
  obtain q S d where d: "computeMSEDerivative_f64 D (Fin b) = Fin d"
      "\<bar>d - (- q * S)\<bar> \<le> 4 * e" "\<bar>S - n * t\<bar> \<le> 16 * e"
      "1 / 5 \<le> q" "q \<le> 3"
    unfolding e_def by auto
  from d(1) root have "d = 0"
    by simp
  with d(2) have "\<bar>q * S\<bar> \<le> 4 * e"
    by simp
  with d(4) have "q * \<bar>S\<bar> \<le> 4 * e"
    by (simp add: abs_mult)
  moreover from d(4) have "1 / 5 * \<bar>S\<bar> \<le> q * \<bar>S\<bar>"
    by (intro mult_right_mono) simp_all
  ultimately have "\<bar>S\<bar> \<le> 20 * e"
    by linarith
  with d(3) have "\<bar>n * t\<bar> \<le> 36 * e"
    by linarith
  with n have "n * \<bar>t\<bar> \<le> 36 * e"
    by (simp add: abs_mult)
  moreover from n have "1 * \<bar>t\<bar> \<le> n * \<bar>t\<bar>"
    by (intro mult_right_mono) simp_all
  ultimately have "\<bar>t\<bar> \<le> 36 * e"
    by linarith
  with e have "\<bar>t\<bar> \<le> 1 / 100000000000"
    by linarith
  then show ?thesis
    unfolding t_def by (simp add: abs_minus_commute)
qed

section \<open>The claims\<close>

text \<open>
  C1. One optimizer step on the page's dataset: Step Once leaves
  \<open>currentB - learningRate * computeMSEDerivative mainData currentB\<close> in
  \<^verbatim>\<open>gdState.currentB\<close>, records that gradient, and leaves the dataset as it was; a
  run that is let through (\<^verbatim>\<open>isRunning\<close> false) ends at the value that as many
  Step Once invocations reach, so its loop applies the same rule, and it leaves the
  dataset alone as well.
\<close>

theorem step_update_rule:
  assumes "points (mainData w) \<noteq> []"
  shows "currentB (gdState (runToCompletion (stepGradientDescent w))) =
      currentB (gdState w)
        - learningRateInput w * computeMSEDerivative (mainData w) (currentB (gdState w))
    \<and> h_gradient (last (history (gdState (runToCompletion (stepGradientDescent w))))) =
        computeMSEDerivative (mainData w) (currentB (gdState w))
    \<and> mainData (runToCompletion (stepGradientDescent w)) = mainData w
    \<and> (\<not> isRunning (gdState w) \<longrightarrow>
         currentB (gdState (runToCompletion (runGradientDescent w))) =
           currentB (gdState (((\<lambda>v. runToCompletion (stepGradientDescent v))
              ^^ nat (iterationsInput w)) w))
         \<and> mainData (runToCompletion (runGradientDescent w)) = mainData w)"
proof -
  have "\<not> isRunning (gdState w) \<Longrightarrow>
      currentB (gdState (runToCompletion (runGradientDescent w))) =
        currentB (gdState (((\<lambda>v. runToCompletion (stepGradientDescent v))
           ^^ nat (iterationsInput w)) w))"
    by (simp add: gdState_run funpow_step)
  then show ?thesis
    by (simp add: runToCompletion_step spec_descentEntry_def mainData_run)
qed

theorem step_update_rule_witness:
  "points (mainData (pageWorld (1 / 5) 1)) \<noteq> []
   \<and> \<not> isRunning (gdState (pageWorld (1 / 5) 1))
   \<and> currentB (gdState (runToCompletion (stepGradientDescent (pageWorld (1 / 5) 1)))) = 18 / 5
   \<and> currentB (gdState (runToCompletion (runGradientDescent (pageWorld (1 / 5) 1)))) = 18 / 5
   \<and> mainData (runToCompletion (stepGradientDescent (pageWorld (1 / 5) 1))) =
       mainData (pageWorld (1 / 5) 1)"
  using step_update_rule [of "pageWorld (1 / 5) 1"]
  by (simp add: pageWorld_simps pageData_metrics mainData_literal_metrics)

text \<open>
  C2 as stated fails for the doubles the code computes with. For the three points
  with \<open>y = 1, 1, 2\<close> the mean is computed as \<open>1.3333333333333333\<close> and the derivative
  there comes out as \<open>-1.4802973661668753e-16\<close>, not \<open>0\<close>. For the three points with
  \<open>y = 0.5, 0.1, 2\<close> the derivative is \<open>0\<close> at the computed mean
  \<open>0.8666666666666667\<close> and also at the double below it, \<open>0.8666666666666666\<close>: a
  root that is not \<^verbatim>\<open>computeOptimalB\<close> of the dataset.
\<close>

theorem computeOptimalB_f64_counterexample:
  "points thirdsData \<noteq> []
   \<and> computeOptimalB_f64 thirdsData = Fin (6004799503160661 / 4503599627370496)
   \<and> computeMSEDerivative_f64 thirdsData (computeOptimalB_f64 thirdsData) =
       Fin (- (6004799503160661 / 40564819207303340847894502572032))
   \<and> computeMSEDerivative_f64 thirdsData (computeOptimalB_f64 thirdsData) \<noteq> Fin 0
   \<and> points tenthData \<noteq> []
   \<and> computeOptimalB_f64 tenthData = Fin (1951559838527215 / 2251799813685248)
   \<and> computeMSEDerivative_f64 tenthData (Fin (7806239354108859 / 9007199254740992)) = Fin 0
   \<and> Fin (7806239354108859 / 9007199254740992) \<noteq> computeOptimalB_f64 tenthData"
proof -
  have ne: "points thirdsData \<noteq> []" "points tenthData \<noteq> []"
    by (simp_all add: thirdsData_def tenthData_def)
  have thirds: "computeMSEDerivative_f64 thirdsData (computeOptimalB_f64 thirdsData) =
       Fin (- (6004799503160661 / 40564819207303340847894502572032))"
    by (simp only: thirdsData_f64)
  then have nonzero: "computeMSEDerivative_f64 thirdsData (computeOptimalB_f64 thirdsData) \<noteq> Fin 0"
    by simp
  have other: "Fin (7806239354108859 / 9007199254740992) \<noteq> computeOptimalB_f64 tenthData"
    by (simp add: tenthData_f64)
  from ne(1) thirdsData_f64(1) thirds nonzero ne(2) tenthData_f64(1) tenthData_f64(3) other
  show ?thesis
    by (intro conjI)
qed

text \<open>
  C2, as amended. In exact real arithmetic, for a non-empty dataset \<open>D\<close>,
  \<open>computeOptimalB D\<close> is the arithmetic mean of the \<open>y\<close>-values, the derivative vanishes
  there, and it vanishes nowhere else. In doubles, for a dataset of the sizes and
  values the page produces (at most 8 points, \<open>\<bar>y\<bar> \<le> 20\<close>), the computed
  \<^verbatim>\<open>computeOptimalB\<close> is within \<open>10\<^sup>-\<^sup>1\<^sup>2\<close> of the mean, the computed derivative there is
  at most \<open>10\<^sup>-\<^sup>9\<close> in absolute value, and every double \<open>b\<close> with \<open>\<bar>b\<bar> \<le> 20\<close> at which
  the computed derivative is \<open>0\<close> lies within \<open>10\<^sup>-\<^sup>1\<^sup>1\<close> of the mean; on the page's main
  dataset the computed mean is \<open>4.5\<close> and the computed derivative there is exactly \<open>0\<close>.
\<close>

theorem computeOptimalB_unique_root:
  assumes "points D \<noteq> []"
  shows "computeOptimalB D = (\<Sum>p\<leftarrow>points D. p_y p) / real (length (points D))
    \<and> computeMSEDerivative D (computeOptimalB D) = 0
    \<and> (computeMSEDerivative D b = 0 \<longrightarrow> b = computeOptimalB D)
    \<and> (length (points D) \<le> 8 \<and> (\<forall>p\<in>set (points D). \<bar>p_y p\<bar> \<le> 20) \<longrightarrow>
         (\<exists>m d. computeOptimalB_f64 D = Fin m \<and> \<bar>m - computeOptimalB D\<bar> \<le> 1 / 10 ^ 12
            \<and> computeMSEDerivative_f64 D (computeOptimalB_f64 D) = Fin d \<and> \<bar>d\<bar> \<le> 1 / 10 ^ 9)
         \<and> (\<bar>b\<bar> \<le> 20 \<and> computeMSEDerivative_f64 D (Fin b) = Fin 0 \<longrightarrow>
              \<bar>b - computeOptimalB D\<bar> \<le> 1 / 10 ^ 11))
    \<and> computeOptimalB_f64 mainData_literal = Fin (9 / 2)
    \<and> computeMSEDerivative_f64 mainData_literal (computeOptimalB_f64 mainData_literal) = Fin 0"
proof -
  have exact: "computeOptimalB D = (\<Sum>p\<leftarrow>points D. p_y p) / real (length (points D))"
    "computeMSEDerivative D (computeOptimalB D) = 0"
    "computeMSEDerivative D b = 0 \<longrightarrow> b = computeOptimalB D"
    by (simp_all add: computeMSEDerivative_linear [OF assms] computeOptimalB_sum)
  have doubles: "(\<exists>m d. computeOptimalB_f64 D = Fin m \<and> \<bar>m - computeOptimalB D\<bar> \<le> 1 / 10 ^ 12
            \<and> computeMSEDerivative_f64 D (computeOptimalB_f64 D) = Fin d \<and> \<bar>d\<bar> \<le> 1 / 10 ^ 9)
         \<and> (\<bar>b\<bar> \<le> 20 \<and> computeMSEDerivative_f64 D (Fin b) = Fin 0 \<longrightarrow>
              \<bar>b - computeOptimalB D\<bar> \<le> 1 / 10 ^ 11)"
    if len: "length (points D) \<le> 8" and bnd: "\<forall>p\<in>set (points D). \<bar>p_y p\<bar> \<le> 20"
  proof
    from computeMSEDerivative_f64_at_mean [OF assms len bnd]
    obtain m d where "computeOptimalB_f64 D = Fin m" "\<bar>m - computeOptimalB D\<bar> \<le> 1 / 10 ^ 12"
        "computeMSEDerivative_f64 D (Fin m) = Fin d" "\<bar>d\<bar> \<le> 1 / 10 ^ 9"
      by blast
    then show "\<exists>m d. computeOptimalB_f64 D = Fin m \<and> \<bar>m - computeOptimalB D\<bar> \<le> 1 / 10 ^ 12
        \<and> computeMSEDerivative_f64 D (computeOptimalB_f64 D) = Fin d \<and> \<bar>d\<bar> \<le> 1 / 10 ^ 9"
      by auto
    show "\<bar>b\<bar> \<le> 20 \<and> computeMSEDerivative_f64 D (Fin b) = Fin 0 \<longrightarrow>
        \<bar>b - computeOptimalB D\<bar> \<le> 1 / 10 ^ 11"
      using computeMSEDerivative_f64_root_near [OF assms len bnd] by blast
  qed
  have main: "computeOptimalB_f64 mainData_literal = Fin (9 / 2)"
    "computeMSEDerivative_f64 mainData_literal (computeOptimalB_f64 mainData_literal) = Fin 0"
    by (simp_all only: mainData_f64)
  from exact doubles main show ?thesis
    by blast
qed

theorem computeOptimalB_unique_root_witness:
  "points mainData_literal \<noteq> []
   \<and> computeMSEDerivative mainData_literal (9 / 2) = 0
   \<and> 9 / 2 = computeOptimalB mainData_literal
   \<and> length (points mainData_literal) \<le> 8
   \<and> map p_y (points mainData_literal) = [5 / 2, 13 / 2]
   \<and> \<bar>9 / 2 :: real\<bar> \<le> 20
   \<and> computeMSEDerivative_f64 mainData_literal (Fin (9 / 2)) = Fin 0
   \<and> \<bar>9 / 2 - computeOptimalB mainData_literal\<bar> \<le> 1 / 10 ^ 11
   \<and> (\<exists>m d. computeOptimalB_f64 mainData_literal = Fin m
         \<and> \<bar>m - computeOptimalB mainData_literal\<bar> \<le> 1 / 10 ^ 12
         \<and> computeMSEDerivative_f64 mainData_literal (computeOptimalB_f64 mainData_literal) = Fin d
         \<and> \<bar>d\<bar> \<le> 1 / 10 ^ 9)"
proof -
  have ne: "points mainData_literal \<noteq> []"
    by (simp add: mainData_literal_def)
  have root: "computeMSEDerivative mainData_literal (9 / 2) = 0"
    by (simp add: mainData_literal_def computeMSEDerivative_def)
  have size: "length (points mainData_literal) \<le> 8"
    "map p_y (points mainData_literal) = [5 / 2, 13 / 2]"
    "\<forall>p\<in>set (points mainData_literal). \<bar>p_y p\<bar> \<le> 20"
    by (simp_all add: mainData_literal_def)
  have b: "\<bar>9 / 2 :: real\<bar> \<le> 20"
    by simp
  have root64: "computeMSEDerivative_f64 mainData_literal (Fin (9 / 2)) = Fin 0"
    by (rule mainData_f64)
  note inst = computeOptimalB_unique_root [OF ne, of "9 / 2"]
  from inst root have unique: "9 / 2 = computeOptimalB mainData_literal"
    by blast
  from inst size(1,3) b root64
  have near: "\<bar>9 / 2 - computeOptimalB mainData_literal\<bar> \<le> 1 / 10 ^ 11"
    by blast
  from inst size(1,3)
  have tol: "\<exists>m d. computeOptimalB_f64 mainData_literal = Fin m
         \<and> \<bar>m - computeOptimalB mainData_literal\<bar> \<le> 1 / 10 ^ 12
         \<and> computeMSEDerivative_f64 mainData_literal (computeOptimalB_f64 mainData_literal) = Fin d
         \<and> \<bar>d\<bar> \<le> 1 / 10 ^ 9"
    by blast
  from ne root unique size(1,2) b root64 near tol show ?thesis
    by (intro conjI)
qed




text \<open>
  C4, as amended. When \<^verbatim>\<open>isRunning\<close> is true at the call, Run returns at once, without
  a suspension point, and changes nothing. When \<^verbatim>\<open>isRunning\<close> is false at the call, the
  dataset is non-empty and the iteration count \<open>N\<close> is positive, a run clears the
  history (at its first suspension point the history holds entry \<open>0\<close> only, whatever
  it held before), and if the handlers that run at its suspension points leave
  \<^verbatim>\<open>gdState.history\<close> and the dataset as they find them it ends with exactly \<open>N\<close>
  entries, entry \<open>i\<close> numbered \<open>i\<close> and holding \<open>b\<^sub>i\<close>, the error at \<open>b\<^sub>i\<close> and the
  gradient at \<open>b\<^sub>i\<close>, where \<open>b\<^sub>i\<close> is the value before the update of iteration \<open>i\<close>; with
  no handler in between it ends with \<^verbatim>\<open>isRunning\<close> false. An input on the slider, which
  writes \<^verbatim>\<open>gdState.currentB\<close> only, is a handler of that kind; a click on Randomize,
  which empties the history, is not.
\<close>

theorem run_history:
  "(isRunning (gdState w) \<longrightarrow>
      runGradientDescent w = Finished w
      \<and> suspensions (runGradientDescent w) = []
      \<and> runInterleaved (runGradientDescent w) hs = w)
   \<and> (\<not> isRunning (gdState w) \<and> 0 < iterationsInput w \<and> points (mainData w) \<noteq> []
        \<and> (\<forall>h\<in>set hs. \<forall>v. history (gdState (h v)) = history (gdState v)
              \<and> mainData (h v) = mainData v) \<longrightarrow>
      history (gdState (snd (hd (suspensions (runGradientDescent w))))) =
        [\<lparr>h_iteration = 0, h_b = currentB (gdState w),
          h_mse = computeMSE (mainData w) (currentB (gdState w)),
          h_gradient = computeMSEDerivative (mainData w) (currentB (gdState w))\<rparr>]
      \<and> length (history (gdState (runInterleaved (runGradientDescent w) hs))) =
          nat (iterationsInput w)
      \<and> history (gdState (runInterleaved (runGradientDescent w) hs)) =
          map (\<lambda>i. \<lparr>h_iteration = i,
                    h_b = spec_descentB (mainData w) (learningRateInput w) i (currentB (gdState w)),
                    h_mse = computeMSE (mainData w)
                      (spec_descentB (mainData w) (learningRateInput w) i (currentB (gdState w))),
                    h_gradient = computeMSEDerivative (mainData w)
                      (spec_descentB (mainData w) (learningRateInput w) i (currentB (gdState w)))\<rparr>)
            [0..<nat (iterationsInput w)]
      \<and> runInterleaved (runGradientDescent w) [] = runToCompletion (runGradientDescent w)
      \<and> isRunning (gdState (runToCompletion (runGradientDescent w))) = False)
   \<and> history (gdState (sliderInput x v)) = history (gdState v)
   \<and> mainData (sliderInput x v) = mainData v
   \<and> history (gdState (randomizeClick r v)) = []"
proof -
  have slider: "history (gdState (sliderInput x v)) = history (gdState v)"
    "mainData (sliderInput x v) = mainData v"
    by (simp_all add: sliderInput_def setCurrentB_def domEffect_def)
  have randomize: "history (gdState (randomizeClick r v)) = []"
    by (simp add: randomizeClick_simps)
  have busy: "runGradientDescent w = Finished w \<and> suspensions (runGradientDescent w) = []
      \<and> runInterleaved (runGradientDescent w) hs = w" if "isRunning (gdState w)"
    using that by (simp add: runGradientDescent_def)
  have idle: "history (gdState (snd (hd (suspensions (runGradientDescent w))))) =
        [\<lparr>h_iteration = 0, h_b = currentB (gdState w),
          h_mse = computeMSE (mainData w) (currentB (gdState w)),
          h_gradient = computeMSEDerivative (mainData w) (currentB (gdState w))\<rparr>]
      \<and> length (history (gdState (runInterleaved (runGradientDescent w) hs))) =
          nat (iterationsInput w)
      \<and> history (gdState (runInterleaved (runGradientDescent w) hs)) =
          map (\<lambda>i. \<lparr>h_iteration = i,
                    h_b = spec_descentB (mainData w) (learningRateInput w) i (currentB (gdState w)),
                    h_mse = computeMSE (mainData w)
                      (spec_descentB (mainData w) (learningRateInput w) i (currentB (gdState w))),
                    h_gradient = computeMSEDerivative (mainData w)
                      (spec_descentB (mainData w) (learningRateInput w) i (currentB (gdState w)))\<rparr>)
            [0..<nat (iterationsInput w)]
      \<and> runInterleaved (runGradientDescent w) [] = runToCompletion (runGradientDescent w)
      \<and> isRunning (gdState (runToCompletion (runGradientDescent w))) = False"
    if free: "\<not> isRunning (gdState w)" and pos: "0 < iterationsInput w"
      and ne: "points (mainData w) \<noteq> []"
      and keep: "\<forall>h\<in>set hs. \<forall>v. history (gdState (h v)) = history (gdState v)
              \<and> mainData (h v) = mainData v"
  proof -
    have first: "history (gdState (snd (hd (suspensions (runGradientDescent w))))) =
        [\<lparr>h_iteration = 0, h_b = currentB (gdState w),
          h_mse = computeMSE (mainData w) (currentB (gdState w)),
          h_gradient = computeMSEDerivative (mainData w) (currentB (gdState w))\<rparr>]"
      using free pos ne by (simp add: hd_suspensions_run_world spec_descentEntry_def)
    have all: "history (gdState (runInterleaved (runGradientDescent w) hs)) =
          map (\<lambda>i. \<lparr>h_iteration = i,
                    h_b = spec_descentB (mainData w) (learningRateInput w) i (currentB (gdState w)),
                    h_mse = computeMSE (mainData w)
                      (spec_descentB (mainData w) (learningRateInput w) i (currentB (gdState w))),
                    h_gradient = computeMSEDerivative (mainData w)
                      (spec_descentB (mainData w) (learningRateInput w) i (currentB (gdState w)))\<rparr>)
            [0..<nat (iterationsInput w)]"
      by (simp add: runInterleaved_run [OF free keep] spec_descentEntry_def)
    have len: "length (history (gdState (runInterleaved (runGradientDescent w) hs))) =
          nat (iterationsInput w)"
      by (simp add: runInterleaved_run [OF free keep])
    have alone: "runInterleaved (runGradientDescent w) [] = runToCompletion (runGradientDescent w)"
      by (rule runInterleaved_Nil)
    have flag: "isRunning (gdState (runToCompletion (runGradientDescent w))) = False"
      using free by (simp add: gdState_run)
    from first len all alone flag show ?thesis
      by (intro conjI)
  qed
  from busy idle slider randomize show ?thesis
    by blast
qed

theorem run_history_witness:
  "history (gdState (steppedWorld (1 / 5) 2)) =
       [\<lparr>h_iteration = 0, h_b = 3, h_mse = 25 / 4, h_gradient = - 3\<rparr>]
   \<and> \<not> isRunning (gdState (steppedWorld (1 / 5) 2))
   \<and> 0 < iterationsInput (steppedWorld (1 / 5) 2)
   \<and> points (mainData (steppedWorld (1 / 5) 2)) \<noteq> []
   \<and> (\<forall>v. history (gdState (sliderInput (- 10) v)) = history (gdState v)
          \<and> mainData (sliderInput (- 10) v) = mainData v)
   \<and> (\<forall>v. history (gdState (sliderInput 10 v)) = history (gdState v)
          \<and> mainData (sliderInput 10 v) = mainData v)
   \<and> history (gdState (snd (hd (suspensions (runGradientDescent (steppedWorld (1 / 5) 2)))))) =
       [\<lparr>h_iteration = 0, h_b = 18 / 5, h_mse = 481 / 100, h_gradient = - (9 / 5)\<rparr>]
   \<and> map h_iteration (history (gdState
         (runInterleaved (runGradientDescent (steppedWorld (1 / 5) 2))
            [sliderInput (- 10), sliderInput 10]))) = [0, 1]
   \<and> map h_b (history (gdState
         (runInterleaved (runGradientDescent (steppedWorld (1 / 5) 2))
            [sliderInput (- 10), sliderInput 10]))) = [18 / 5, 99 / 25]
   \<and> isRunning (gdState (midRunWorld (1 / 5) 2))
   \<and> runGradientDescent (midRunWorld (1 / 5) 2) = Finished (midRunWorld (1 / 5) 2)
   \<and> runInterleaved (runGradientDescent (midRunWorld (1 / 5) 2)) [sliderInput 10] =
       midRunWorld (1 / 5) 2"
proof -
  have start: "history (gdState (steppedWorld (1 / 5) 2)) =
       [\<lparr>h_iteration = 0, h_b = 3, h_mse = 25 / 4, h_gradient = - 3\<rparr>]"
    "\<not> isRunning (gdState (steppedWorld (1 / 5) 2))"
    "0 < iterationsInput (steppedWorld (1 / 5) 2)"
    "points (mainData (steppedWorld (1 / 5) 2)) \<noteq> []"
    by (simp_all add: steppedWorld_simps pageData_metrics mainData_literal_metrics)
  have busy: "isRunning (gdState (midRunWorld (1 / 5) 2))"
    by (simp add: midRunWorld_simps)
  have slider: "\<forall>v. history (gdState (sliderInput (- 10) v)) = history (gdState v)
          \<and> mainData (sliderInput (- 10) v) = mainData v"
      "\<forall>v. history (gdState (sliderInput 10 v)) = history (gdState v)
          \<and> mainData (sliderInput 10 v) = mainData v"
    using run_history [where x = "- 10"] run_history [where x = 10]
    by blast+
  from slider have keep: "\<forall>h\<in>set [sliderInput (- 10), sliderInput 10].
      \<forall>v. history (gdState (h v)) = history (gdState v) \<and> mainData (h v) = mainData v"
    by simp
  have idle: "history (gdState (snd (hd (suspensions (runGradientDescent (steppedWorld (1 / 5) 2)))))) =
       [\<lparr>h_iteration = 0, h_b = 18 / 5, h_mse = 481 / 100, h_gradient = - (9 / 5)\<rparr>]"
    "map h_iteration (history (gdState
         (runInterleaved (runGradientDescent (steppedWorld (1 / 5) 2))
            [sliderInput (- 10), sliderInput 10]))) = [0, 1]"
    "map h_b (history (gdState
         (runInterleaved (runGradientDescent (steppedWorld (1 / 5) 2))
            [sliderInput (- 10), sliderInput 10]))) = [18 / 5, 99 / 25]"
    using run_history [of "steppedWorld (1 / 5) 2" "[sliderInput (- 10), sliderInput 10]"]
      start keep
    by (simp_all add: steppedWorld_simps pageData_metrics eval_nat_numeral
          power2_eq_square)
  have ret: "runGradientDescent (midRunWorld (1 / 5) 2) = Finished (midRunWorld (1 / 5) 2)"
    "runInterleaved (runGradientDescent (midRunWorld (1 / 5) 2)) [sliderInput 10] =
       midRunWorld (1 / 5) 2"
    using run_history [of "midRunWorld (1 / 5) 2" "[sliderInput 10]"] busy
    by simp_all
  from start slider idle busy ret show ?thesis
    by (intro conjI)
qed

text \<open>
  C4 as stated fails in two ways. For a starting state whose \<^verbatim>\<open>isRunning\<close> flag is
  set, the guard \<^verbatim>\<open>if (gdState.isRunning) return\<close> ends the call at once: a second
  click on Run during a run of two iterations finds one history entry and leaves it,
  so the history is not cleared and does not reach two entries. And no handler looks
  at \<^verbatim>\<open>isRunning\<close> but Run itself: a click on Randomize at the first suspension point
  of a run of two iterations from the initial page empties the history, and the run
  completes with the single entry numbered 1.
\<close>

theorem run_history_counterexample:
  "iterationsInput (midRunWorld (1 / 5) 2) = 2
   \<and> points (mainData (midRunWorld (1 / 5) 2)) \<noteq> []
   \<and> suspensions (runGradientDescent (midRunWorld (1 / 5) 2)) = []
   \<and> history (gdState (runToCompletion (runGradientDescent (midRunWorld (1 / 5) 2)))) =
       history (gdState (midRunWorld (1 / 5) 2))
   \<and> length (history (gdState (runToCompletion (runGradientDescent (midRunWorld (1 / 5) 2))))) = 1
   \<and> \<not> isRunning (gdState (pageWorld (1 / 5) 2))
   \<and> iterationsInput (pageWorld (1 / 5) 2) = 2
   \<and> map h_iteration (history (gdState
         (resumeAfter (randomizeClick (1 / 2)) (runGradientDescent (pageWorld (1 / 5) 2))))) = [1]"
proof -
  have busy: "iterationsInput (midRunWorld (1 / 5) 2) = 2"
    "points (mainData (midRunWorld (1 / 5) 2)) \<noteq> []"
    "suspensions (runGradientDescent (midRunWorld (1 / 5) 2)) = []"
    "history (gdState (runToCompletion (runGradientDescent (midRunWorld (1 / 5) 2)))) =
       history (gdState (midRunWorld (1 / 5) 2))"
    "length (history (gdState (runToCompletion (runGradientDescent (midRunWorld (1 / 5) 2))))) = 1"
    by (simp_all add: midRunWorld_simps pageData_metrics mainData_literal_metrics run_busy)
  have idle: "\<not> isRunning (gdState (pageWorld (1 / 5) 2))" "iterationsInput (pageWorld (1 / 5) 2) = 2"
    by (simp_all add: pageWorld_simps)
  have cleared: "map h_iteration (history (gdState
         (resumeAfter (randomizeClick (1 / 2)) (runGradientDescent (pageWorld (1 / 5) 2))))) = [1]"
    by (subst resumeAfter_randomize_run) (simp_all add: pageWorld_simps eval_nat_numeral)
  from busy idle cleared show ?thesis
    by (intro conjI)
qed




text \<open>
  C6. At tick \<open>i\<close> of an animation with \<open>steps\<close> ticks (\<open>1 \<le> i \<le> steps\<close>) the value
  written to \<^verbatim>\<open>gdState.currentB\<close> and to the slider is
  \<open>fromB + (toB - fromB) * (1 - (1 - i/steps)^3)\<close>; the animation ends with \<open>toB\<close> in
  \<^verbatim>\<open>gdState.currentB\<close> (with no callback, and with the empty callback its callers
  pass); and for \<open>fromB = 3\<close>, \<open>toB = 5\<close> the value at tick 20 of
  \<^verbatim>\<open>animateGradientDescentStep\<close> is 5.
\<close>

theorem tick_value_and_final_value:
  assumes "1 \<le> i" and "i \<le> steps"
  shows "tickValues (animateLoop 1 steps d fromB toB onDone w) ! (i - 1) =
      fromB + (toB - fromB) * (1 - (1 - real i / real steps) ^ 3)
    \<and> domLog (snd (suspensions (animateLoop 1 steps d fromB toB onDone w) ! (i - 1))) =
        domLog w @ tickEffects steps fromB toB 1 (i - 1)
          @ [SetSliderValue (fromB + (toB - fromB) * (1 - (1 - real i / real steps) ^ 3)),
             UpdateMainDisplay]
    \<and> currentB (gdState (runToCompletion (animateLoop 1 steps d fromB toB None w))) = toB
    \<and> currentB (gdState (runToCompletion (animateLoop 1 steps d fromB toB (Some (\<lambda>v. v)) w))) = toB
    \<and> animateGradientDescentStep fromB toB onDone w = animateLoop 1 20 20 fromB toB onDone w
    \<and> tickValues (animateGradientDescentStep 3 5 onDone w) ! 19 = 5"
proof -
  from assms have idx: "i - 1 < length [1..<Suc steps]" "[1..<Suc steps] ! (i - 1) = i"
    by (simp_all del: upt_Suc)
  have val: "tickValues (animateLoop 1 steps d fromB toB onDone w) ! (i - 1) =
      fromB + (toB - fromB) * (1 - (1 - real i / real steps) ^ 3)"
    unfolding tickValues_animateLoop
    by (simp only: nth_map [OF idx(1)] idx(2) spec_interpolatedB_def)
  from assms have snoc: "tickEffects steps fromB toB 1 i =
      tickEffects steps fromB toB 1 (i - 1)
        @ [SetSliderValue (spec_interpolatedB steps fromB toB i), UpdateMainDisplay]"
    using tickEffects_snoc [of 1 "i - 1" steps fromB toB] by simp
  have log: "domLog (snd (suspensions (animateLoop 1 steps d fromB toB onDone w) ! (i - 1))) =
      domLog w @ tickEffects steps fromB toB 1 (i - 1)
        @ [SetSliderValue (fromB + (toB - fromB) * (1 - (1 - real i / real steps) ^ 3)),
           UpdateMainDisplay]"
    unfolding suspensions_animateLoop
    by (simp only: nth_map [OF idx(1)] idx(2) snoc) (simp add: spec_interpolatedB_def)
  have fin: "currentB (gdState (runToCompletion (animateLoop 1 steps d fromB toB None w))) = toB"
    "currentB (gdState (runToCompletion (animateLoop 1 steps d fromB toB (Some (\<lambda>v. v)) w))) = toB"
    by (simp_all add: runToCompletion_animateLoop)
  have inst: "animateGradientDescentStep fromB toB onDone w =
      animateLoop 1 20 20 fromB toB onDone w"
    by (simp add: animateGradientDescentStep_def Let_def)
  have last: "tickValues (animateGradientDescentStep 3 5 onDone w) ! 19 = 5"
    by (simp add: tickValues_animate nth_ticks spec_interpolatedB_def)
  from val log fin inst last show ?thesis
    by (intro conjI)
qed

theorem tick_value_and_final_value_witness:
  "(1::nat) \<le> 10 \<and> (10::nat) \<le> 20
   \<and> tickValues (animateGradientDescentStep 3 5 None (pageWorld 0 0)) ! (10 - 1) = 19 / 4
   \<and> currentB (gdState (runToCompletion (animateGradientDescentStep 3 5 None (pageWorld 0 0)))) = 5"
  using tick_value_and_final_value [of 10 20 20 3 5 None "pageWorld 0 0"]
  by (simp add: power3_eq_cube)




text \<open>
  C8, as amended. During Step Once every tick of the animation writes its interpolated
  value to \<^verbatim>\<open>gdState.currentB\<close>: at the \<open>k\<close>-th of the 20 suspension points (counted
  from 0) \<^verbatim>\<open>currentB\<close> is \<open>oldB + (newB - oldB) * (1 - (1 - (k+1)/20)^3)\<close>, where
  \<open>oldB\<close> is the value before the step and \<open>newB = oldB - learningRate * gradient\<close>; and
  when the animation has completed \<^verbatim>\<open>currentB\<close> is \<open>newB\<close>.
\<close>

theorem stepOnce_currentB_follows_ticks:
  assumes "k < 20"
  shows "tickValues (stepGradientDescent w) ! k =
      currentB (gdState w)
        + (currentB (gdState w)
             - learningRateInput w * computeMSEDerivative (mainData w) (currentB (gdState w))
             - currentB (gdState w))
          * (1 - (1 - real (Suc k) / 20) ^ 3)
    \<and> length (tickValues (stepGradientDescent w)) = 20
    \<and> currentB (gdState (runToCompletion (stepGradientDescent w))) =
        currentB (gdState w)
          - learningRateInput w * computeMSEDerivative (mainData w) (currentB (gdState w))"
  using assms
  by (simp add: tickValues_step nth_ticks spec_interpolatedB_def runToCompletion_step
        del: upt_Suc)

theorem stepOnce_currentB_follows_ticks_witness:
  "(0::nat) < 20
   \<and> tickValues (stepGradientDescent (pageWorld (1 / 2) 1)) ! 0 = 3 + (3 / 2) * (1141 / 8000)
   \<and> currentB (gdState (runToCompletion (stepGradientDescent (pageWorld (1 / 2) 1)))) = 9 / 2"
  using stepOnce_currentB_follows_ticks [of 0 "pageWorld (1 / 2) 1"]
  by (simp add: pageWorld_simps pageData_metrics power3_eq_cube)

text \<open>
  C8 as stated fails. Step Once on the initial page with learning rate 0.5 moves
  \<open>b\<close> from 3 to 4.5. The animation has 20 suspension points, all before it completes;
  at the first \<^verbatim>\<open>gdState.currentB\<close> already differs from the old value 3 (the
  interpolated value went to \<^verbatim>\<open>currentB\<close>), and at the last, while the animation
  still waits for its final timeout, \<^verbatim>\<open>currentB\<close> already holds the new value 4.5.
\<close>

theorem stepOnce_currentB_counterexample:
  "currentB (gdState (pageWorld (1 / 2) 1)) = 3
   \<and> currentB (gdState (runToCompletion (stepGradientDescent (pageWorld (1 / 2) 1)))) = 9 / 2
   \<and> length (suspensions (stepGradientDescent (pageWorld (1 / 2) 1))) = 20
   \<and> currentB (gdState (snd (suspensions (stepGradientDescent (pageWorld (1 / 2) 1)) ! 0))) \<noteq> 3
   \<and> currentB (gdState (snd (suspensions (stepGradientDescent (pageWorld (1 / 2) 1)) ! 19))) = 9 / 2
   \<and> \<not> (\<forall>k < length (suspensions (stepGradientDescent (pageWorld (1 / 2) 1))).
          currentB (gdState (snd (suspensions (stepGradientDescent (pageWorld (1 / 2) 1)) ! k)))
            \<noteq> currentB (gdState (runToCompletion (stepGradientDescent (pageWorld (1 / 2) 1)))))"
proof -
  let ?w = "pageWorld (1 / 2) 1"
  have old: "currentB (gdState ?w) = 3"
    by (simp add: pageWorld_simps)
  have new: "currentB (gdState (runToCompletion (stepGradientDescent ?w))) = 9 / 2"
    by (simp add: runToCompletion_step pageWorld_simps pageData_metrics)
  have len: "length (suspensions (stepGradientDescent ?w)) = 20"
    by (simp add: suspensions_step del: upt_Suc)
  have first: "currentB (gdState (snd (suspensions (stepGradientDescent ?w) ! 0))) \<noteq> 3"
    by (simp add: suspensions_step nth_ticks spec_interpolatedB_def pageWorld_simps
          pageData_metrics power3_eq_cube del: upt_Suc)
  have last: "currentB (gdState (snd (suspensions (stepGradientDescent ?w) ! 19))) = 9 / 2"
    by (simp add: suspensions_step nth_ticks spec_interpolatedB_def pageWorld_simps
          pageData_metrics del: upt_Suc)
  have "\<not> (\<forall>k < length (suspensions (stepGradientDescent ?w)).
          currentB (gdState (snd (suspensions (stepGradientDescent ?w) ! k)))
            \<noteq> currentB (gdState (runToCompletion (stepGradientDescent ?w))))"
  proof
    assume "\<forall>k < length (suspensions (stepGradientDescent ?w)).
          currentB (gdState (snd (suspensions (stepGradientDescent ?w) ! k)))
            \<noteq> currentB (gdState (runToCompletion (stepGradientDescent ?w)))"
    then have "currentB (gdState (snd (suspensions (stepGradientDescent ?w) ! 19)))
        \<noteq> currentB (gdState (runToCompletion (stepGradientDescent ?w)))"
      by (simp only: len) simp
    with last new show False by simp
  qed
  with old new len first last show ?thesis
    by (intro conjI)
qed

text \<open>
  C9. On the main dataset, a run of 15 iterations with learning rate 0.2 from
  \<open>currentB = -7\<close> ends strictly closer to the optimum 4.5 than it started, with 15
  history entries.
\<close>

theorem run_converges_on_mainData:
  "\<bar>currentB (gdState (runToCompletion
        (runGradientDescent (setCurrentB (- 7) (pageWorld (1 / 5) 15))))) - 9 / 2\<bar>
     < \<bar>- 7 - 9 / 2\<bar>
   \<and> length (history (gdState (runToCompletion
        (runGradientDescent (setCurrentB (- 7) (pageWorld (1 / 5) 15)))))) = 15
   \<and> computeOptimalB (mainData (setCurrentB (- 7) (pageWorld (1 / 5) 15))) = 9 / 2"
proof -
  let ?w = "setCurrentB (- 7) (pageWorld (1 / 5) 15)"
  have w: "\<not> isRunning (gdState ?w)" "iterationsInput ?w = 15" "learningRateInput ?w = 1 / 5"
    "currentB (gdState ?w) = - 7" "mainData ?w = mainData_literal\<lparr>optimalB := Some (9 / 2)\<rparr>"
    by (simp_all add: setCurrentB_def pageWorld_simps)
  have "currentB (gdState (runToCompletion (runGradientDescent ?w))) =
      spec_descentB (mainData_literal\<lparr>optimalB := Some (9 / 2)\<rparr>) (1 / 5) 15 (- 7)"
    by (simp add: gdState_run [OF w(1)] w)
  also have "\<dots> = 9 / 2 + (1 - 2 * (1 / 5)) ^ 15 * (- 7 - 9 / 2)"
    by (simp only: spec_descentB_closed [OF pageData_metrics(1)] pageData_metrics(2))
  finally have b: "currentB (gdState (runToCompletion (runGradientDescent ?w))) =
      9 / 2 + (1 - 2 * (1 / 5)) ^ 15 * (- 7 - 9 / 2)" .
  have p: "(3 / 5 :: real) ^ 15 < 1"
    by (simp add: power_divide)
  have "\<bar>9 / 2 + (1 - 2 * (1 / 5)) ^ 15 * (- 7 - 9 / 2) - 9 / 2\<bar> < \<bar>- 7 - 9 / (2::real)\<bar>"
    by (simp add: p)
  moreover have "length (history (gdState (runToCompletion (runGradientDescent ?w)))) = 15"
    by (simp add: gdState_run [OF w(1)] w)
  moreover have "computeOptimalB (mainData ?w) = 9 / 2"
    by (simp add: w pageData_metrics)
  ultimately show ?thesis
    by (simp only: b)
qed

text \<open>
  C10. Step Once appends one entry to the history it finds, numbered with the length
  of that history, and the entry is there from the first suspension point on; it
  neither reads nor writes \<^verbatim>\<open>isRunning\<close>, so it does the same whether or not a run is
  in progress; and \<open>n\<close> invocations in a row number their entries consecutively from
  the length of the history they started with (from 0 on an empty history).
\<close>

theorem stepOnce_appends_numbered_entry:
  "history (gdState (runToCompletion (stepGradientDescent w))) =
      history (gdState w)
        @ [\<lparr>h_iteration = length (history (gdState w)),
            h_b = currentB (gdState w),
            h_mse = computeMSE (mainData w) (currentB (gdState w)),
            h_gradient = computeMSEDerivative (mainData w) (currentB (gdState w))\<rparr>]
   \<and> map (\<lambda>(e, v). history (gdState v)) (suspensions (stepGradientDescent w)) =
       replicate 20 (history (gdState (runToCompletion (stepGradientDescent w))))
   \<and> isRunning (gdState (runToCompletion (stepGradientDescent w))) = isRunning (gdState w)
   \<and> runToCompletion (stepGradientDescent (w\<lparr>gdState := (gdState w)\<lparr>isRunning := r\<rparr>\<rparr>)) =
       (runToCompletion (stepGradientDescent w))
         \<lparr>gdState := (gdState (runToCompletion (stepGradientDescent w)))\<lparr>isRunning := r\<rparr>\<rparr>
   \<and> map h_iteration
        (history (gdState (((\<lambda>v. runToCompletion (stepGradientDescent v)) ^^ n) w))) =
       map h_iteration (history (gdState w))
         @ [length (history (gdState w))..<length (history (gdState w)) + n]"
proof -
  have one: "history (gdState (runToCompletion (stepGradientDescent w))) =
      history (gdState w)
        @ [\<lparr>h_iteration = length (history (gdState w)),
            h_b = currentB (gdState w),
            h_mse = computeMSE (mainData w) (currentB (gdState w)),
            h_gradient = computeMSEDerivative (mainData w) (currentB (gdState w))\<rparr>]"
    by (simp add: runToCompletion_step spec_descentEntry_def)
  have early: "map (\<lambda>(e, v). history (gdState v)) (suspensions (stepGradientDescent w)) =
      replicate 20 (history (gdState (runToCompletion (stepGradientDescent w))))"
    by (simp add: suspensions_step runToCompletion_step comp_def map_replicate_const
          del: upt_Suc)
  have flag: "isRunning (gdState (runToCompletion (stepGradientDescent w))) = isRunning (gdState w)"
    by (simp add: runToCompletion_step)
  have blind: "runToCompletion (stepGradientDescent (w\<lparr>gdState := (gdState w)\<lparr>isRunning := r\<rparr>\<rparr>)) =
      (runToCompletion (stepGradientDescent w))
        \<lparr>gdState := (gdState (runToCompletion (stepGradientDescent w)))\<lparr>isRunning := r\<rparr>\<rparr>"
    by (simp add: runToCompletion_step)
  have "map (\<lambda>k. i + k) [0..<n] = [i..<i + n]" for i :: nat
    by (induction n) simp_all
  then have "map h_iteration (map (spec_descentEntry D lr b i) [0..<n]) = [i..<i + n]" for D lr b i
    by (simp add: comp_def spec_descentEntry_def)
  then have many: "map h_iteration
        (history (gdState (((\<lambda>v. runToCompletion (stepGradientDescent v)) ^^ n) w))) =
      map h_iteration (history (gdState w))
        @ [length (history (gdState w))..<length (history (gdState w)) + n]"
    by (simp add: funpow_step)
  from one early flag blind many show ?thesis
    by (intro conjI)
qed

theorem stepOnce_appends_numbered_entry_witness:
  "isRunning (gdState (midRunWorld (1 / 2) 3))
   \<and> map h_iteration (history (gdState (midRunWorld (1 / 2) 3))) = [0]
   \<and> map h_iteration
        (history (gdState (runToCompletion (stepGradientDescent (midRunWorld (1 / 2) 3))))) = [0, 1]
   \<and> map h_iteration
        (history (gdState (((\<lambda>v. runToCompletion (stepGradientDescent v)) ^^ 3) (pageWorld (1 / 2) 3))))
       = [0, 1, 2]"
  using stepOnce_appends_numbered_entry [of "midRunWorld (1 / 2) 3" True 0]
    stepOnce_appends_numbered_entry [of "pageWorld (1 / 2) 3" False 3]
  by (simp add: midRunWorld_simps pageWorld_simps eval_nat_numeral)

end
